theory Spec2Isabelle
  imports Complex_Main "HOL-Library.Multiset"
begin

section \<open>Model Arena: values exchanged with the outside world\<close>

text \<open>
  The Model Arena of the SDK explorer asks several hosted models for a short story and then
  asks a judge model for a structured verdict. Two entry points exist: the SSE route
  (\<^verbatim>\<open>src/api/model-arena/route.ts\<close>) and the agent handler
  (\<^verbatim>\<open>src/agent/model-arena/agent.ts\<close>); both use \<^verbatim>\<open>lib.ts\<close>,
  \<^verbatim>\<open>prompts.ts\<close> and \<^verbatim>\<open>types.ts\<close>.

  JSON values are what \<^verbatim>\<open>JSON.stringify\<close> receives and what the judge model sends
  back. A number in the judge's reply is kept as the real number that its JSON text
  denotes; what JavaScript makes of it (a double, or an infinity when the text is too
  large) is computed where the schema reads it, by \<open>to_double\<close> below.
\<close>

datatype json =
    JNull
  | JBool bool
  | JNum real
  | JStr string
  | JArr "json list"
  | JObj "(string \<times> json) list"

text \<open>
  Reading a property of a parsed JSON object: the last binding of a repeated key wins, a
  missing key and a non-object give \<^verbatim>\<open>undefined\<close> (\<open>None\<close>).
\<close>

definition get_prop :: "string \<Rightarrow> json \<Rightarrow> json option" where
  "get_prop k v = (case v of JObj kvs \<Rightarrow> map_of (rev kvs) k | _ \<Rightarrow> None)"

text \<open>
  An object literal handed to \<^verbatim>\<open>JSON.stringify\<close>: a property whose value is
  \<^verbatim>\<open>undefined\<close> is left out of the output.
\<close>

definition stringify_obj :: "(string \<times> json option) list \<Rightarrow> json" where
  "stringify_obj kvs =
     JObj (concat (map (\<lambda>(k, v). case v of None \<Rightarrow> [] | Some j \<Rightarrow> [(k, j)]) kvs))"

text \<open>
  A thrown JavaScript value is an \<^verbatim>\<open>Error\<close> with its message, or anything else.
  Both handlers of the route read it with
  \<^verbatim>\<open>error instanceof Error ? error.message : "Unknown error"\<close>.
\<close>

datatype thrown = Error string | NonError

definition error_message :: "thrown \<Rightarrow> string" where
  "error_message e = (case e of Error m \<Rightarrow> m | NonError \<Rightarrow> ''Unknown error'')"

section \<open>types.ts\<close>

datatype Tone = whimsical | sci_fi | suspenseful | comedic

definition tone_string :: "Tone \<Rightarrow> string" where
  "tone_string t = (case t of whimsical \<Rightarrow> ''whimsical'' | sci_fi \<Rightarrow> ''sci-fi''
     | suspenseful \<Rightarrow> ''suspenseful'' | comedic \<Rightarrow> ''comedic'')"

definition PROVIDERS :: "string list" where
  "PROVIDERS = [''openai'', ''anthropic'']"

definition PROVIDER_DISPLAY_NAMES :: "string \<Rightarrow> string option" where
  "PROVIDER_DISPLAY_NAMES = map_of [(''openai'', ''OpenAI''), (''anthropic'', ''Anthropic'')]"

record ProviderScore =
  provider :: string
  score :: real
  reason :: string

record ProviderBinary =
  provider :: string
  passed :: bool
  reason :: string

record Scores =
  creativity :: "ProviderScore list"
  engagement :: "ProviderScore list"

record Checks =
  toneMatch :: "ProviderBinary list"
  wordCount :: "ProviderBinary list"

record Judgment =
  winner :: string
  reasoning :: string
  scores :: Scores
  checks :: Checks

subsection \<open>JavaScript numbers\<close>

text \<open>
  \<^verbatim>\<open>JSON.parse\<close> reads a number as an IEEE 754 double: the nearest value
  \<open>m * 2^q\<close> with \<open>\<bar>m\<bar> \<le> 2^53\<close>, ties going to the even \<open>m\<close>, where
  \<open>q = e - 52\<close> and \<open>e\<close> is the binary exponent of the number, between -1022 (below it
  the doubles are subnormal and keep \<open>q = -1074\<close>) and 1023. A number that rounds to
  \<open>2^1024\<close> or more becomes an infinity. \<open>to_double\<close> gives the double, or \<open>None\<close>
  for an infinity.
\<close>

definition round_half_even :: "real \<Rightarrow> int" where
  "round_half_even r =
     (let f = \<lfloor>r\<rfloor>
      in if r - of_int f < 1 / 2 then f
         else if 1 / 2 < r - of_int f then f + 1
         else if even f then f else f + 1)"

text \<open>
  The binary exponent of \<open>a \<ge> 0\<close>, found by stepping from 0: upwards while the next
  power of two is still below \<open>a\<close>, at most to 1023; downwards while \<open>a\<close> is below the
  power of two, at most to -1022.
\<close>

fun binade_up :: "nat \<Rightarrow> int \<Rightarrow> real \<Rightarrow> int" where
  "binade_up 0 e a = e"
| "binade_up (Suc n) e a = (if 2 powi (e + 1) \<le> a then binade_up n (e + 1) a else e)"

fun binade_down :: "nat \<Rightarrow> int \<Rightarrow> real \<Rightarrow> int" where
  "binade_down 0 e a = e"
| "binade_down (Suc n) e a = (if a < 2 powi e then binade_down n (e - 1) a else e)"

definition binade :: "real \<Rightarrow> int" where
  "binade a = (if 1 \<le> a then binade_up 1023 0 a else binade_down 1022 0 a)"

definition to_double :: "real \<Rightarrow> real option" where
  "to_double x =
     (let q = binade \<bar>x\<bar> - 52;
          y = of_int (round_half_even (x / 2 powi q)) * 2 powi q
      in if 2 powi 1024 \<le> \<bar>y\<bar> then None else Some y)"

subsection \<open>The Zod combinators the schemas are built from\<close>

text \<open>
  A schema is run on a value that may be missing (\<open>None\<close>, a property the object does not
  have) and gives the parsed value, or \<open>None\<close> when validation fails.
  \<^verbatim>\<open>z.string()\<close> and \<^verbatim>\<open>z.boolean()\<close> check the type only;
  \<^verbatim>\<open>z.number()\<close> accepts a number that is not an infinity and gives its double;
  \<^verbatim>\<open>z.enum(values)\<close> accepts exactly the listed strings; \<^verbatim>\<open>z.array(s)\<close>
  accepts an array of any length all of whose elements pass \<open>s\<close>; \<^verbatim>\<open>z.object\<close>
  accepts an object whose listed properties pass and drops the others.
\<close>

definition z_string :: "json option \<Rightarrow> string option" where
  "z_string v = (case v of Some (JStr s) \<Rightarrow> Some s | _ \<Rightarrow> None)"

definition z_number :: "json option \<Rightarrow> real option" where
  "z_number v = (case v of Some (JNum x) \<Rightarrow> to_double x | _ \<Rightarrow> None)"

definition z_boolean :: "json option \<Rightarrow> bool option" where
  "z_boolean v = (case v of Some (JBool b) \<Rightarrow> Some b | _ \<Rightarrow> None)"

definition z_enum :: "string list \<Rightarrow> json option \<Rightarrow> string option" where
  "z_enum values v =
     (case v of Some (JStr s) \<Rightarrow> if s \<in> set values then Some s else None | _ \<Rightarrow> None)"

definition z_array :: "(json option \<Rightarrow> 'a option) \<Rightarrow> json option \<Rightarrow> 'a list option" where
  "z_array elem v =
     (case v of Some (JArr xs) \<Rightarrow> those (map (\<lambda>x. elem (Some x)) xs) | _ \<Rightarrow> None)"

definition z_object :: "(json \<Rightarrow> 'a option) \<Rightarrow> json option \<Rightarrow> 'a option" where
  "z_object shape v = (case v of Some (JObj kvs) \<Rightarrow> shape (JObj kvs) | _ \<Rightarrow> None)"

subsection \<open>The schemas\<close>

definition ProviderScoreSchema :: "json option \<Rightarrow> ProviderScore option" where
  "ProviderScoreSchema = z_object (\<lambda>obj.
     case z_enum PROVIDERS (get_prop ''provider'' obj) of None \<Rightarrow> None | Some p \<Rightarrow>
     case z_number (get_prop ''score'' obj) of None \<Rightarrow> None | Some s \<Rightarrow>
     case z_string (get_prop ''reason'' obj) of None \<Rightarrow> None | Some r \<Rightarrow>
       Some \<lparr>ProviderScore.provider = p, score = s, ProviderScore.reason = r\<rparr>)"

definition ProviderBinarySchema :: "json option \<Rightarrow> ProviderBinary option" where
  "ProviderBinarySchema = z_object (\<lambda>obj.
     case z_enum PROVIDERS (get_prop ''provider'' obj) of None \<Rightarrow> None | Some p \<Rightarrow>
     case z_boolean (get_prop ''passed'' obj) of None \<Rightarrow> None | Some b \<Rightarrow>
     case z_string (get_prop ''reason'' obj) of None \<Rightarrow> None | Some r \<Rightarrow>
       Some \<lparr>ProviderBinary.provider = p, passed = b, reason = r\<rparr>)"

definition ScoresSchema :: "json option \<Rightarrow> Scores option" where
  "ScoresSchema = z_object (\<lambda>obj.
     case z_array ProviderScoreSchema (get_prop ''creativity'' obj) of None \<Rightarrow> None | Some c \<Rightarrow>
     case z_array ProviderScoreSchema (get_prop ''engagement'' obj) of None \<Rightarrow> None | Some e \<Rightarrow>
       Some \<lparr>creativity = c, engagement = e\<rparr>)"

definition ChecksSchema :: "json option \<Rightarrow> Checks option" where
  "ChecksSchema = z_object (\<lambda>obj.
     case z_array ProviderBinarySchema (get_prop ''toneMatch'' obj) of None \<Rightarrow> None | Some t \<Rightarrow>
     case z_array ProviderBinarySchema (get_prop ''wordCount'' obj) of None \<Rightarrow> None | Some w \<Rightarrow>
       Some \<lparr>toneMatch = t, wordCount = w\<rparr>)"

definition JudgmentSchema :: "json option \<Rightarrow> Judgment option" where
  "JudgmentSchema = z_object (\<lambda>obj.
     case z_enum PROVIDERS (get_prop ''winner'' obj) of None \<Rightarrow> None | Some w \<Rightarrow>
     case z_string (get_prop ''reasoning'' obj) of None \<Rightarrow> None | Some r \<Rightarrow>
     case ScoresSchema (get_prop ''scores'' obj) of None \<Rightarrow> None | Some s \<Rightarrow>
     case ChecksSchema (get_prop ''checks'' obj) of None \<Rightarrow> None | Some c \<Rightarrow>
       Some \<lparr>winner = w, reasoning = r, scores = s, checks = c\<rparr>)"

text \<open>
  \<^verbatim>\<open>ArenaOutput\<close> is what the agent handler returns. \<^verbatim>\<open>ModelResult\<close> has the two
  fields of \<^verbatim>\<open>GenerationConfig\<close> (lib.ts) and three more, so it is declared as its
  extension, after it.
\<close>

record GenerationConfig =
  provider :: string
  model :: string

record ModelResult = GenerationConfig +
  story :: string
  generationMs :: int
  tokens :: nat

record ArenaOutput =
  id' :: string
  results :: "ModelResult list"
  judgment' :: Judgment

section \<open>The hosted models\<close>

text \<open>
  \<^verbatim>\<open>generateText\<close> and \<^verbatim>\<open>generateObject\<close> of the AI SDK call hosted models. What a
  model answers is not decided by this program, so it is a parameter: the \<open>world\<close>.
  The story prompt is a function of the tone (\<^verbatim>\<open>getStorySystemPrompt\<close>) and the
  judge prompt a function of the results, the tone and the user prompt
  (\<^verbatim>\<open>getJudgePrompt\<close>), so the answers are given as functions of those arguments.
  \<^verbatim>\<open>usage\<close> and \<^verbatim>\<open>usage.totalTokens\<close> may each be \<^verbatim>\<open>undefined\<close>.
  The two readings of \<^verbatim>\<open>Date.now()\<close> around a call are \<open>started\<close> and \<open>finished\<close>.
\<close>

datatype LanguageModel = openai string | anthropic string | groq string

record LanguageModelUsage =
  totalTokens :: "nat option"

record GenerateTextResult =
  text_out :: string
  usage :: "LanguageModelUsage option"

datatype judge_reply = CallFails thrown | Replies json

record world =
  generateText :: "LanguageModel \<Rightarrow> Tone \<Rightarrow> string \<Rightarrow> thrown + GenerateTextResult"
  started :: "GenerationConfig \<Rightarrow> int"
  finished :: "GenerationConfig \<Rightarrow> int"
  judge_model :: "ModelResult list \<Rightarrow> Tone \<Rightarrow> string \<Rightarrow> judge_reply"

text \<open>
  \<^verbatim>\<open>generateObject\<close> throws when the call fails and when the answer does not pass the
  schema; otherwise it returns the parsed object.
\<close>

definition generateObject :: "(json option \<Rightarrow> 'a option) \<Rightarrow> judge_reply \<Rightarrow> thrown + 'a" where
  "generateObject schema reply =
     (case reply of
        CallFails e \<Rightarrow> Inl e
      | Replies v \<Rightarrow>
          (case schema (Some v) of
             None \<Rightarrow> Inl (Error ''No object generated: response did not match schema.'')
           | Some obj \<Rightarrow> Inr obj))"

section \<open>lib.ts\<close>

definition MODELS :: "GenerationConfig list" where
  "MODELS = [\<lparr>provider = ''openai'', model = ''gpt-5-nano''\<rparr>,
             \<lparr>provider = ''anthropic'', model = ''claude-haiku-4-5''\<rparr>]"

definition JUDGE_MODEL :: LanguageModel where
  "JUDGE_MODEL = groq ''openai/gpt-oss-120b''"

definition getModel :: "GenerationConfig \<Rightarrow> thrown + LanguageModel" where
  "getModel config =
     (if provider config = ''openai'' then Inr (openai (model config))
      else if provider config = ''anthropic'' then Inr (anthropic (model config))
      else Inl (Error (''Unknown provider: '' @ provider config)))"

definition generateStory :: "world \<Rightarrow> GenerationConfig \<Rightarrow> string \<Rightarrow> Tone \<Rightarrow> thrown + ModelResult" where
  "generateStory w config prompt tone =
     (case getModel config of
        Inl e \<Rightarrow> Inl e
      | Inr m \<Rightarrow>
          (case generateText w m tone prompt of
             Inl e \<Rightarrow> Inl e
           | Inr r \<Rightarrow>
               Inr \<lparr>provider = provider config,
                    model = model config,
                    story = text_out r,
                    generationMs = finished w config - started w config,
                    tokens = (case Option.bind (usage r) totalTokens of
                                None \<Rightarrow> 0
                              | Some n \<Rightarrow> n)\<rparr>))"

section \<open>Concurrency: the order in which promises settle\<close>

text \<open>
  All generation calls are started at once and settle in an order the program does not
  control. A schedule is a list of numbers: at each step the next number, reduced modulo
  the number of calls still pending, selects the pending call that settles next (the first
  one when the schedule is used up). Every schedule gives an arrival order, and every
  arrival order comes from a schedule.
\<close>

definition next_index :: "nat list \<Rightarrow> nat \<Rightarrow> nat" where
  "next_index sched n = (case sched of [] \<Rightarrow> 0 | c # _ \<Rightarrow> c mod n)"

function arrival_order :: "nat list \<Rightarrow> 'a list \<Rightarrow> 'a list" where
  "arrival_order sched pending =
     (if pending = [] then []
      else pending ! next_index sched (length pending)
           # arrival_order (tl sched)
               (take (next_index sched (length pending)) pending
                @ drop (Suc (next_index sched (length pending))) pending))"
  by pat_completeness auto
termination
proof (relation "measure (\<lambda>(sched, pending). length pending)")
  show "wf (measure (\<lambda>(sched :: nat list, pending :: 'a list). length pending))"
    by simp
next
  fix sched :: "nat list" and pending :: "'a list"
  assume nonempty: "pending \<noteq> []"
  then have "next_index sched (length pending) < length pending"
    by (cases sched) (simp_all add: next_index_def)
  then show "((tl sched,
               take (next_index sched (length pending)) pending
               @ drop (Suc (next_index sched (length pending))) pending),
              (sched, pending))
             \<in> measure (\<lambda>(sched, pending). length pending)"
    by simp
qed

declare arrival_order.simps [simp del]

text \<open>
  \<^verbatim>\<open>Promise.all\<close> rejects with the first rejection to arrive; when every promise is
  fulfilled it gives the values in the order of the input array.
\<close>

fun rejections :: "('e + 'a) list \<Rightarrow> 'e list" where
  "rejections [] = []"
| "rejections (Inl e # ps) = e # rejections ps"
| "rejections (Inr _ # ps) = rejections ps"

fun fulfilled :: "('e + 'a) list \<Rightarrow> 'a list" where
  "fulfilled [] = []"
| "fulfilled (Inl _ # ps) = fulfilled ps"
| "fulfilled (Inr r # ps) = r # fulfilled ps"

definition Promise_all :: "nat list \<Rightarrow> ('e + 'a) list \<Rightarrow> 'e + 'a list" where
  "Promise_all sched ps =
     (case rejections (arrival_order sched ps) of
        e # _ \<Rightarrow> Inl e
      | [] \<Rightarrow> Inr (fulfilled ps))"

section \<open>route.ts: the SSE stream\<close>

text \<open>
  An SSE message as handed to \<^verbatim>\<open>stream.writeSSE\<close>. The field \<open>data\<close> holds the value
  that the code passes to \<^verbatim>\<open>JSON.stringify\<close>.
\<close>

record SSEMessage =
  event :: string
  data :: json
  id' :: string

text \<open>
  The state of one request: the local array \<^verbatim>\<open>results\<close>, the messages written to the
  stream so far, and a log of the arguments of every judge call made
  (\<^verbatim>\<open>getJudgePrompt(results, ...)\<close> inside \<^verbatim>\<open>generateObject\<close>). Writing to the
  stream is taken to succeed: the client stays connected.
\<close>

record sse_run =
  results :: "ModelResult list"
  stream :: "SSEMessage list"
  judge_inputs :: "ModelResult list list"

definition FIXED_PROMPT :: string where
  "FIXED_PROMPT = ''A robot discovers it can dream''"

definition FIXED_TONE :: Tone where
  "FIXED_TONE = sci_fi"

definition writeSSE :: "SSEMessage \<Rightarrow> sse_run \<Rightarrow> sse_run" where
  "writeSSE msg st = st\<lparr>stream := stream st @ [msg]\<rparr>"

definition start_message :: SSEMessage where
  "start_message =
     \<lparr>event = ''start'',
      data = stringify_obj
        [(''prompt'', Some (JStr FIXED_PROMPT)),
         (''tone'', Some (JStr (tone_string FIXED_TONE))),
         (''providers'', Some (JArr (map (\<lambda>m. stringify_obj
            [(''provider'', Some (JStr (provider m))),
             (''displayName'', map_option JStr (PROVIDER_DISPLAY_NAMES (provider m))),
             (''model'', Some (JStr (model m)))]) MODELS)))],
      id' = ''start''\<rparr>"

definition story_message :: "ModelResult \<Rightarrow> SSEMessage" where
  "story_message result =
     \<lparr>event = ''story'',
      data = stringify_obj
        [(''provider'', Some (JStr (provider result))),
         (''displayName'', map_option JStr (PROVIDER_DISPLAY_NAMES (provider result))),
         (''model'', Some (JStr (model result))),
         (''story'', Some (JStr (story result))),
         (''generationMs'', Some (JNum (of_int (generationMs result)))),
         (''tokens'', Some (JNum (of_nat (tokens result))))],
      id' = ''story-'' @ provider result\<rparr>"

definition error_message_for :: "GenerationConfig \<Rightarrow> string \<Rightarrow> SSEMessage" where
  "error_message_for config message =
     \<lparr>event = ''error'',
      data = stringify_obj
        [(''provider'', Some (JStr (provider config))),
         (''displayName'', map_option JStr (PROVIDER_DISPLAY_NAMES (provider config))),
         (''error'', Some (JStr message))],
      id' = ''error-'' @ provider config\<rparr>"

definition judging_message :: SSEMessage where
  "judging_message =
     \<lparr>event = ''judging'',
      data = stringify_obj
        [(''message'', Some (JStr ''All stories complete, judge evaluating...''))],
      id' = ''judging''\<rparr>"

definition ProviderScore_json :: "ProviderScore \<Rightarrow> json" where
  "ProviderScore_json s =
     JObj [(''provider'', JStr (ProviderScore.provider s)),
           (''score'', JNum (score s)),
           (''reason'', JStr (ProviderScore.reason s))]"

definition ProviderBinary_json :: "ProviderBinary \<Rightarrow> json" where
  "ProviderBinary_json b =
     JObj [(''provider'', JStr (ProviderBinary.provider b)),
           (''passed'', JBool (passed b)),
           (''reason'', JStr (ProviderBinary.reason b))]"

text \<open>The own properties of a judgment object, as the spread \<^verbatim>\<open>...judgment\<close> copies them.\<close>

definition Judgment_props :: "Judgment \<Rightarrow> (string \<times> json option) list" where
  "Judgment_props judgment =
     [(''winner'', Some (JStr (winner judgment))),
      (''reasoning'', Some (JStr (reasoning judgment))),
      (''scores'', Some (JObj
         [(''creativity'', JArr (map ProviderScore_json (creativity (scores judgment)))),
          (''engagement'', JArr (map ProviderScore_json (engagement (scores judgment))))])),
      (''checks'', Some (JObj
         [(''toneMatch'', JArr (map ProviderBinary_json (toneMatch (checks judgment)))),
          (''wordCount'', JArr (map ProviderBinary_json (wordCount (checks judgment))))]))]"

definition complete_message :: "string \<Rightarrow> Judgment \<Rightarrow> SSEMessage" where
  "complete_message sessionId judgment =
     \<lparr>event = ''complete'',
      data = stringify_obj
        [(''id'', Some (JStr sessionId)),
         (''judgment'', Some (stringify_obj
            (Judgment_props judgment
             @ [(''winnerDisplayName'',
                   map_option JStr (PROVIDER_DISPLAY_NAMES (winner judgment)))])))],
      id' = ''complete''\<rparr>"

definition judge_error_message :: "string \<Rightarrow> SSEMessage" where
  "judge_error_message message =
     \<lparr>event = ''error'',
      data = stringify_obj [(''error'', Some (JStr (''Judge failed: '' @ message)))],
      id' = ''judge-error''\<rparr>"

text \<open>
  The body of one promise of \<^verbatim>\<open>MODELS.map(async (config) => ...)\<close>: the
  \<^verbatim>\<open>try\<close> branch pushes the result and writes a \<^verbatim>\<open>story\<close> message, the
  \<^verbatim>\<open>catch\<close> branch writes an \<^verbatim>\<open>error\<close> message. Neither rethrows.
\<close>

definition story_task :: "world \<Rightarrow> sse_run \<Rightarrow> GenerationConfig \<Rightarrow> sse_run" where
  "story_task w st config =
     (case generateStory w config FIXED_PROMPT FIXED_TONE of
        Inr result \<Rightarrow> writeSSE (story_message result) (st\<lparr>results := results st @ [result]\<rparr>)
      | Inl error \<Rightarrow> writeSSE (error_message_for config (error_message error)) st)"

text \<open>
  The promises settle in the arrival order of the schedule; \<^verbatim>\<open>await Promise.all\<close>
  returns when the last one has.
\<close>

definition run_tasks :: "world \<Rightarrow> nat list \<Rightarrow> GenerationConfig list \<Rightarrow> sse_run \<Rightarrow> sse_run" where
  "run_tasks w sched configs st = foldl (story_task w) st (arrival_order sched configs)"

definition judge_step :: "world \<Rightarrow> string \<Rightarrow> sse_run \<Rightarrow> sse_run" where
  "judge_step w sessionId st =
     (let st' = st\<lparr>judge_inputs := judge_inputs st @ [results st]\<rparr>
      in case generateObject JudgmentSchema (judge_model w (results st) FIXED_TONE FIXED_PROMPT) of
           Inr judgment \<Rightarrow> writeSSE (complete_message sessionId judgment) st'
         | Inl error \<Rightarrow> writeSSE (judge_error_message (error_message error)) st')"

definition sse_handler :: "world \<Rightarrow> nat list \<Rightarrow> string \<Rightarrow> sse_run" where
  "sse_handler w sched sessionId =
     judge_step w sessionId
       (writeSSE judging_message
          (run_tasks w sched MODELS
             (writeSSE start_message \<lparr>results = [], stream = [], judge_inputs = []\<rparr>)))"

section \<open>agent.ts: the agent handler\<close>

definition judgeStories :: "world \<Rightarrow> ModelResult list \<Rightarrow> Tone \<Rightarrow> string \<Rightarrow> thrown + Judgment" where
  "judgeStories w rs tone prompt = generateObject JudgmentSchema (judge_model w rs tone prompt)"

text \<open>
  The handler returns the log of judge calls it made and either what it threw or its
  output. The generation promises are passed to \<^verbatim>\<open>Promise.all\<close> as they are.
\<close>

definition handler :: "world \<Rightarrow> nat list \<Rightarrow> string \<Rightarrow> string \<Rightarrow> Tone
    \<Rightarrow> ModelResult list list \<times> (thrown + ArenaOutput)" where
  "handler w sched sessionId prompt tone =
     (case Promise_all sched (map (\<lambda>config. generateStory w config prompt tone) MODELS) of
        Inl e \<Rightarrow> ([], Inl e)
      | Inr rs \<Rightarrow>
          (case judgeStories w rs tone prompt of
             Inl e \<Rightarrow> ([rs], Inl e)
           | Inr judgment \<Rightarrow>
               ([rs], Inr \<lparr>ArenaOutput.id' = sessionId, ArenaOutput.results = rs,
                         judgment' = judgment\<rparr>)))"

section \<open>Vocabulary of the specification\<close>

text \<open>
  An item-settled event is a \<^verbatim>\<open>story\<close> or \<^verbatim>\<open>error\<close> message that carries a
  \<^verbatim>\<open>provider\<close> field; the client tells a per-provider error from a fatal one by
  that field (\<^verbatim>\<open>if (data.provider)\<close> in ModelArena.tsx).
\<close>

definition item_settled :: "SSEMessage \<Rightarrow> bool" where
  "item_settled m \<longleftrightarrow>
     (event m = ''story'' \<or> event m = ''error'') \<and> get_prop ''provider'' (data m) \<noteq> None"

definition fatal_error :: "SSEMessage \<Rightarrow> bool" where
  "fatal_error m \<longleftrightarrow> event m = ''error'' \<and> get_prop ''provider'' (data m) = None"

definition item_providers :: "SSEMessage list \<Rightarrow> json list" where
  "item_providers ms = map (\<lambda>m. the (get_prop ''provider'' (data m))) (filter item_settled ms)"

text \<open>The outcome of each generation call of the route, in arrival order.\<close>

definition settled :: "world \<Rightarrow> nat list \<Rightarrow> (thrown + ModelResult) list" where
  "settled w sched =
     map (\<lambda>config. generateStory w config FIXED_PROMPT FIXED_TONE) (arrival_order sched MODELS)"

text \<open>
  The message one promise of the route writes when it settles, and the outcome of the
  judge call the route makes on the results it has collected.
\<close>

definition task_message :: "world \<Rightarrow> GenerationConfig \<Rightarrow> SSEMessage" where
  "task_message w config =
     (case generateStory w config FIXED_PROMPT FIXED_TONE of
        Inr result \<Rightarrow> story_message result
      | Inl error \<Rightarrow> error_message_for config (error_message error))"

definition judge_outcome :: "world \<Rightarrow> nat list \<Rightarrow> thrown + Judgment" where
  "judge_outcome w sched =
     generateObject JudgmentSchema
       (judge_model w (fulfilled (settled w sched)) FIXED_TONE FIXED_PROMPT)"

definition final_message :: "world \<Rightarrow> nat list \<Rightarrow> string \<Rightarrow> SSEMessage" where
  "final_message w sched sessionId =
     (case judge_outcome w sched of
        Inr judgment \<Rightarrow> complete_message sessionId judgment
      | Inl error \<Rightarrow> judge_error_message (error_message error))"

text \<open>
  The entries of the four per-provider arrays of a judge reply, read from the JSON as the
  schema reads it.
\<close>

definition array_items :: "json option \<Rightarrow> json list" where
  "array_items v = (case v of Some (JArr xs) \<Rightarrow> xs | _ \<Rightarrow> [])"

definition reply_entries :: "json \<Rightarrow> json list" where
  "reply_entries v =
     array_items (Option.bind (get_prop ''scores'' v) (get_prop ''creativity''))
     @ array_items (Option.bind (get_prop ''scores'' v) (get_prop ''engagement''))
     @ array_items (Option.bind (get_prop ''checks'' v) (get_prop ''toneMatch''))
     @ array_items (Option.bind (get_prop ''checks'' v) (get_prop ''wordCount''))"

section \<open>Concrete runs\<close>

definition sample_text :: GenerateTextResult where
  "sample_text = \<lparr>text_out = ''abcdefgh'', usage = None\<rparr>"

definition metered_text :: GenerateTextResult where
  "metered_text = \<lparr>text_out = ''abcdefgh'', usage = Some \<lparr>totalTokens = Some 57\<rparr>\<rparr>"

definition verdict :: "string \<Rightarrow> real \<Rightarrow> json" where
  "verdict w x =
     JObj [(''winner'', JStr w),
           (''reasoning'', JStr ''more vivid''),
           (''scores'', JObj
              [(''creativity'', JArr [JObj [(''provider'', JStr ''openai''), (''score'', JNum x),
                                           (''reason'', JStr ''fresh'')]]),
               (''engagement'', JArr [])]),
           (''checks'', JObj [(''toneMatch'', JArr []), (''wordCount'', JArr [])])]"

text \<open>The judgment that \<open>verdict w x\<close> is parsed to, where \<open>d\<close> is the double of \<open>x\<close>.\<close>

definition verdict_judgment :: "string \<Rightarrow> real \<Rightarrow> Judgment" where
  "verdict_judgment w d =
     \<lparr>winner = w, reasoning = ''more vivid'',
      scores = \<lparr>creativity = [\<lparr>ProviderScore.provider = ''openai'', score = d,
                                ProviderScore.reason = ''fresh''\<rparr>],
                engagement = []\<rparr>,
      checks = \<lparr>toneMatch = [], wordCount = []\<rparr>\<rparr>"

definition all_succeed :: world where
  "all_succeed =
     \<lparr>generateText = (\<lambda>m tone prompt. Inr sample_text),
      started = (\<lambda>config. 1000),
      finished = (\<lambda>config. 1250),
      judge_model = (\<lambda>rs tone prompt. Replies (verdict ''openai'' 5))\<rparr>"

definition all_fail :: world where
  "all_fail =
     \<lparr>generateText = (\<lambda>m tone prompt. Inl (Error ''network down'')),
      started = (\<lambda>config. 1000),
      finished = (\<lambda>config. 1250),
      judge_model = (\<lambda>rs tone prompt. Replies (verdict ''openai'' 1))\<rparr>"

definition openai_fails :: world where
  "openai_fails =
     \<lparr>generateText = (\<lambda>m tone prompt.
        case m of openai _ \<Rightarrow> Inl (Error ''network down'') | _ \<Rightarrow> Inr metered_text),
      started = (\<lambda>config. 1000),
      finished = (\<lambda>config. 1250),
      judge_model = (\<lambda>rs tone prompt. Replies (verdict ''openai'' 1))\<rparr>"

definition judge_down :: world where
  "judge_down =
     \<lparr>generateText = (\<lambda>m tone prompt. Inr metered_text),
      started = (\<lambda>config. 1000),
      finished = (\<lambda>config. 1250),
      judge_model = (\<lambda>rs tone prompt. CallFails (Error ''timeout''))\<rparr>"

definition stranger_wins :: world where
  "stranger_wins =
     \<lparr>generateText = (\<lambda>m tone prompt. Inr metered_text),
      started = (\<lambda>config. 1000),
      finished = (\<lambda>config. 1250),
      judge_model = (\<lambda>rs tone prompt. Replies (verdict ''gemini'' 1))\<rparr>"

definition wild_judgment :: Judgment where
  "wild_judgment =
     \<lparr>winner = ''anthropic'', reasoning = ''bolder'',
      scores = \<lparr>creativity = [\<lparr>ProviderScore.provider = ''openai'', score = 5,
                                ProviderScore.reason = ''fresh''\<rparr>],
                engagement = [\<lparr>ProviderScore.provider = ''anthropic'', score = - 1,
                                ProviderScore.reason = ''flat''\<rparr>]\<rparr>,
      checks = \<lparr>toneMatch = [], wordCount = []\<rparr>\<rparr>"

definition stray_entry :: json where
  "stray_entry = JObj [(''provider'', JStr ''gemini''), (''passed'', JBool True),
                       (''reason'', JStr ''on tone'')]"

definition stray_reply :: json where
  "stray_reply =
     JObj [(''winner'', JStr ''openai''),
           (''reasoning'', JStr ''more vivid''),
           (''scores'', JObj [(''creativity'', JArr []), (''engagement'', JArr [])]),
           (''checks'', JObj [(''toneMatch'', JArr [stray_entry]), (''wordCount'', JArr [])])]"

definition anthropic_result :: ModelResult where
  "anthropic_result =
     \<lparr>provider = ''anthropic'', model = ''claude-haiku-4-5'', story = ''abcdefgh'',
      generationMs = 250, tokens = 57\<rparr>"

section \<open>Doubles\<close>

lemma binade_up_unfold:
  "binade_up n e a =
     (if n = 0 then e else if 2 powi (e + 1) \<le> a then binade_up (n - 1) (e + 1) a else e)"
  by (cases n) simp_all

lemma binade_down_unfold:
  "binade_down n e a =
     (if n = 0 then e else if a < 2 powi e then binade_down (n - 1) (e - 1) a else e)"
  by (cases n) simp_all

lemma binade_5: "binade 5 = 2"
  by (simp add: binade_def binade_up_unfold)

lemma binade_1: "binade 1 = 0"
  by (simp add: binade_def binade_up_unfold)

lemma to_double_5: "to_double 5 = Some 5"
  by (simp add: to_double_def binade_5 round_half_even_def Let_def power_int_minus)

lemma to_double_1: "to_double 1 = Some 1"
  by (simp add: to_double_def binade_1 round_half_even_def Let_def power_int_minus)

lemma to_double_minus_1: "to_double (- 1) = Some (- 1)"
  by (simp add: to_double_def binade_1 round_half_even_def Let_def power_int_minus)

text \<open>\<open>2^53 + 1\<close> is not a double: it is read as \<open>2^53\<close>.\<close>

lemma binade_2_53_1: "binade 9007199254740993 = 53"
  by (simp add: binade_def binade_up_unfold)

lemma to_double_2_53_1: "to_double 9007199254740993 = Some 9007199254740992"
  by (simp add: to_double_def binade_2_53_1 round_half_even_def Let_def)


lemma round_half_even_bounds: "\<lfloor>r\<rfloor> \<le> round_half_even r \<and> round_half_even r \<le> \<lceil>r\<rceil>"
proof -
  have "r - of_int \<lfloor>r\<rfloor> > 0 \<Longrightarrow> \<lceil>r\<rceil> = \<lfloor>r\<rfloor> + 1"
    by (simp add: ceiling_altdef)
  moreover have "\<lfloor>r\<rfloor> \<le> \<lceil>r\<rceil>"
    by (simp add: floor_le_ceiling)
  ultimately show ?thesis
    by (auto simp: round_half_even_def Let_def)
qed

lemma binade_up_all:
  "2 powi (e + int n) \<le> a \<Longrightarrow> binade_up n e a = e + int n"
proof (induction n arbitrary: e)
  case 0
  then show ?case by simp
next
  case (Suc n)
  have "(2::real) powi (e + 1) \<le> 2 powi (e + int (Suc n))"
    by (rule power_int_increasing) simp_all
  with Suc.prems have "2 powi (e + 1) \<le> a" by simp
  moreover have "e + int (Suc n) = e + 1 + int n" by simp
  with Suc.prems have "2 powi (e + 1 + int n) \<le> a"
    by (simp only:)
  ultimately show ?case
    using Suc.IH [of "e + 1"] by simp
qed

lemma scaled_bound:
  fixes P A M T :: real
  assumes "0 \<le> P" and "A \<le> \<bar>M\<bar>" and "T = A * P"
  shows "T \<le> \<bar>M * P\<bar>"
  using assms by (simp add: abs_mult mult_right_mono)

text \<open>A number of magnitude \<open>2^1024\<close> or more is read as an infinity.\<close>

lemma to_double_overflow:
  assumes "2 powi 1024 \<le> \<bar>x\<bar>"
  shows "to_double x = None"
proof -
  have big: "(2::real) powi 1023 \<le> 2 powi 1024"
    by (rule power_int_increasing) simp_all
  have "(1::real) \<le> 2 powi 1024"
    by (simp add: one_le_power)
  with assms have one: "1 \<le> \<bar>x\<bar>" by simp
  from assms big have "2 powi (0 + int 1023) \<le> \<bar>x\<bar>" by simp
  then have "binade_up 1023 0 \<bar>x\<bar> = 0 + int 1023"
    by (rule binade_up_all)
  with one have b: "binade \<bar>x\<bar> = 1023"
    by (simp add: binade_def)
  let ?r = "x / 2 powi 971"
  let ?m = "round_half_even ?r"
  have split: "(2::real) powi 1024 = 2 powi 53 * 2 powi 971"
    by (simp add: power_int_add [symmetric])
  with assms have r: "2 powi 53 \<le> \<bar>?r\<bar>"
    by (simp add: abs_divide pos_le_divide_eq)
  have m: "2 ^ 53 \<le> \<bar>?m\<bar>"
  proof (cases "0 \<le> ?r")
    case True
    with r have "(2::real) ^ 53 \<le> ?r" by simp
    then have "(2::int) ^ 53 \<le> \<lfloor>?r\<rfloor>"
      by (simp add: le_floor_iff)
    with round_half_even_bounds [of ?r] show ?thesis by linarith
  next
    case False
    with r have "?r \<le> - ((2::real) ^ 53)" by simp
    then have "\<lceil>?r\<rceil> \<le> - ((2::int) ^ 53)"
      by (simp add: ceiling_le_iff)
    with round_half_even_bounds [of ?r] show ?thesis by linarith
  qed
  then have "(2::real) ^ 53 \<le> \<bar>of_int ?m\<bar>"
    by (metis of_int_abs of_int_le_iff of_int_numeral of_int_power)
  then have m': "(2::real) powi 53 \<le> \<bar>of_int ?m\<bar>"
    by simp
  have "0 \<le> (2::real) powi 971"
    by simp
  from this m' split have "2 powi 1024 \<le> \<bar>of_int ?m * (2::real) powi 971\<bar>"
    by (rule scaled_bound)
  with b show ?thesis
    by (simp add: to_double_def Let_def)
qed

lemma to_double_1e400: "to_double (10 ^ 400) = None"
  by (rule to_double_overflow) simp

section \<open>Arrival orders and the stream of a run\<close>


lemma next_index_less: "0 < n \<Longrightarrow> next_index sched n < n"
  by (cases sched) (simp_all add: next_index_def)

lemma mset_remove_nth:
  assumes "k < length xs"
  shows "add_mset (xs ! k) (mset (take k xs @ drop (Suc k) xs)) = mset xs"
proof -
  have "xs = take k xs @ xs ! k # drop (Suc k) xs"
    using assms by (rule id_take_nth_drop)
  then have "mset xs = mset (take k xs @ xs ! k # drop (Suc k) xs)"
    by simp
  then show ?thesis by simp
qed

lemma arrival_order_Nil [simp]: "arrival_order sched [] = []"
  by (subst arrival_order.simps) simp

lemma mset_arrival_order: "mset (arrival_order sched xs) = mset xs"
proof (induction sched xs rule: arrival_order.induct)
  case (1 sched pending)
  show ?case
  proof (cases "pending = []")
    case True
    then show ?thesis by simp
  next
    case False
    then have k: "next_index sched (length pending) < length pending"
      by (simp add: next_index_less)
    from False 1 have "mset (arrival_order sched pending) =
        add_mset (pending ! next_index sched (length pending))
          (mset (take (next_index sched (length pending)) pending
                 @ drop (Suc (next_index sched (length pending))) pending))"
      by (subst arrival_order.simps) simp
    with k show ?thesis by (simp only: mset_remove_nth)
  qed
qed

lemma set_arrival_order: "set (arrival_order sched xs) = set xs"
  using mset_arrival_order [of sched xs] by (metis set_mset_mset)

lemma length_arrival_order: "length (arrival_order sched xs) = length xs"
  using mset_arrival_order [of sched xs] by (metis size_mset)

text \<open>Every arrival order of the pending calls is the arrival order of some schedule.\<close>

lemma arrival_order_complete:
  "mset ys = mset xs \<Longrightarrow> \<exists>sched. arrival_order sched xs = ys"
proof (induction ys arbitrary: xs)
  case Nil
  then show ?case by simp
next
  case (Cons y ys)
  then have "y \<in> set xs"
    by (metis list.set_intros(1) set_mset_mset)
  then obtain k where k: "k < length xs" "xs ! k = y"
    by (auto simp: in_set_conv_nth)
  let ?rest = "take k xs @ drop (Suc k) xs"
  have "add_mset y (mset ?rest) = mset xs"
    using mset_remove_nth [OF k(1)] k(2) by simp
  with Cons.prems have "mset ys = mset ?rest"
    by (metis add_mset_remove_trivial mset.simps(2))
  then obtain sched where s: "arrival_order sched ?rest = ys"
    using Cons.IH by blast
  have ne: "xs \<noteq> []" using k by auto
  have "next_index (k # sched) (length xs) = k"
    using k by (simp add: next_index_def)
  then have "arrival_order (k # sched) xs = y # ys"
    using ne k s by (subst arrival_order.simps) simp
  then show ?case by blast
qed


lemma rejections_empty_iff: "rejections ps = [] \<longleftrightarrow> (\<forall>p\<in>set ps. \<not> isl p)"
  by (induction ps rule: rejections.induct) simp_all

lemma story_task_results:
  "results (story_task w st c) = results st @ fulfilled [generateStory w c FIXED_PROMPT FIXED_TONE]"
  by (simp add: story_task_def writeSSE_def split: sum.splits)

lemma story_task_stream:
  "stream (story_task w st c) = stream st @ [task_message w c]"
  by (simp add: story_task_def task_message_def writeSSE_def split: sum.splits)

lemma story_task_judge_inputs:
  "judge_inputs (story_task w st c) = judge_inputs st"
  by (simp add: story_task_def writeSSE_def split: sum.splits)

lemma foldl_story_task_results:
  "results (foldl (story_task w) st cs) =
     results st @ fulfilled (map (\<lambda>c. generateStory w c FIXED_PROMPT FIXED_TONE) cs)"
proof (induction cs arbitrary: st)
  case Nil
  then show ?case by simp
next
  case (Cons c cs)
  show ?case
    by (cases "generateStory w c FIXED_PROMPT FIXED_TONE")
       (simp_all add: Cons.IH story_task_results)
qed

lemma foldl_story_task_stream:
  "stream (foldl (story_task w) st cs) = stream st @ map (task_message w) cs"
  by (induction cs arbitrary: st) (simp_all add: story_task_stream)

lemma foldl_story_task_judge_inputs:
  "judge_inputs (foldl (story_task w) st cs) = judge_inputs st"
  by (induction cs arbitrary: st) (simp_all add: story_task_judge_inputs)

lemma sse_handler_results: "results (sse_handler w sched sid) = fulfilled (settled w sched)"
  by (simp add: sse_handler_def judge_step_def Let_def writeSSE_def run_tasks_def
      foldl_story_task_results settled_def split: sum.splits)

lemma sse_handler_judge_inputs:
  "judge_inputs (sse_handler w sched sid) = [fulfilled (settled w sched)]"
  by (simp add: sse_handler_def judge_step_def Let_def writeSSE_def run_tasks_def
      foldl_story_task_results foldl_story_task_judge_inputs settled_def split: sum.splits)

lemma sse_handler_stream:
  "stream (sse_handler w sched sid) =
     start_message # map (task_message w) (arrival_order sched MODELS)
     @ [judging_message, final_message w sched sid]"
  by (simp add: sse_handler_def judge_step_def Let_def writeSSE_def run_tasks_def
      foldl_story_task_results foldl_story_task_stream settled_def final_message_def
      judge_outcome_def split: sum.splits)

lemma task_message_provider:
  "get_prop ''provider'' (data (task_message w c)) = Some (JStr (provider c))"
  by (cases "PROVIDER_DISPLAY_NAMES (provider c)")
     (auto simp: task_message_def generateStory_def story_message_def error_message_for_def
        get_prop_def stringify_obj_def split: sum.splits)

lemma task_message_event:
  "event (task_message w c) =
     (if isl (generateStory w c FIXED_PROMPT FIXED_TONE) then ''error'' else ''story'')"
  by (simp add: task_message_def story_message_def error_message_for_def split: sum.splits)

lemma item_settled_task_message: "item_settled (task_message w c)"
  by (simp add: item_settled_def task_message_provider task_message_event)

lemma not_item_settled_fixed:
  "\<not> item_settled start_message" "\<not> item_settled judging_message"
  "\<not> item_settled (complete_message sid j)" "\<not> item_settled (judge_error_message m)"
  by (simp_all add: item_settled_def start_message_def judging_message_def
      complete_message_def judge_error_message_def get_prop_def stringify_obj_def
      Judgment_props_def)

lemma set_rejections: "set (rejections ps) = {e. Inl e \<in> set ps}"
  by (induction ps rule: rejections.induct) auto

lemma mset_fulfilled:
  "mset (fulfilled ps) = image_mset projr (filter_mset (\<lambda>p. \<not> isl p) (mset ps))"
  by (induction ps rule: fulfilled.induct) simp_all

lemma mset_fulfilled_cong: "mset ps = mset qs \<Longrightarrow> mset (fulfilled ps) = mset (fulfilled qs)"
  by (simp add: mset_fulfilled)

lemma mset_settled:
  "mset (settled w sched) = mset (map (\<lambda>c. generateStory w c FIXED_PROMPT FIXED_TONE) MODELS)"
  by (simp add: settled_def mset_arrival_order)

lemma task_message_cases:
  "task_message w c =
     (case generateStory w c FIXED_PROMPT FIXED_TONE of
        Inr res \<Rightarrow> story_message res
      | Inl e \<Rightarrow> error_message_for c (error_message e))"
  by (simp add: task_message_def)

lemma final_message_kind:
  "event (final_message w sched sid) = ''complete'' \<or> fatal_error (final_message w sched sid)"
  by (simp add: final_message_def fatal_error_def complete_message_def judge_error_message_def
      get_prop_def stringify_obj_def split: sum.splits)

lemma not_item_settled_final: "\<not> item_settled (final_message w sched sid)"
  by (simp add: final_message_def not_item_settled_fixed split: sum.splits)

lemma item_providers_tasks:
  "item_providers (map (task_message w) cs) = map (JStr \<circ> provider) cs"
  by (induction cs) (simp_all add: item_providers_def item_settled_task_message task_message_provider)

lemma item_providers_append: "item_providers (xs @ ys) = item_providers xs @ item_providers ys"
  by (simp add: item_providers_def)

lemma item_providers_stream:
  "item_providers (stream (sse_handler w sched sid)) = map (JStr \<circ> provider) (arrival_order sched MODELS)"
proof -
  have "stream (sse_handler w sched sid) =
      [start_message] @ map (task_message w) (arrival_order sched MODELS)
      @ [judging_message, final_message w sched sid]"
    by (simp add: sse_handler_stream)
  then have "item_providers (stream (sse_handler w sched sid)) =
      item_providers [start_message]
      @ map (JStr \<circ> provider) (arrival_order sched MODELS)
      @ item_providers [judging_message, final_message w sched sid]"
    by (simp only: item_providers_append item_providers_tasks)
  then show ?thesis
    by (simp add: item_providers_def not_item_settled_fixed not_item_settled_final)
qed

lemma set_item_providers_take: "set (item_providers (take n ms)) \<subseteq> set (item_providers ms)"
proof -
  have "set (filter item_settled (take n ms)) \<subseteq> set (filter item_settled ms)"
    using set_take_subset [of n ms] by auto
  then show ?thesis unfolding item_providers_def by auto
qed

lemma filter_tasks_provider:
  assumes "distinct (map provider cs)" and "c \<in> set cs"
  shows "filter (\<lambda>m. item_settled m \<and> get_prop ''provider'' (data m) = Some (JStr (provider c)))
           (map (task_message w) cs) = [task_message w c]"
  using assms
proof (induction cs)
  case Nil
  then show ?case by simp
next
  case (Cons a cs)
  show ?case
  proof (cases "a = c")
    case True
    with Cons.prems have "provider c \<notin> provider ` set cs" by simp
    then have "\<forall>b\<in>set cs. provider b \<noteq> provider c"
      by (metis imageI)
    then have "filter (\<lambda>m. item_settled m \<and> get_prop ''provider'' (data m) = Some (JStr (provider c)))
           (map (task_message w) cs) = []"
      by (simp add: filter_empty_conv task_message_provider)
    with True show ?thesis
      by (simp add: item_settled_task_message task_message_provider)
  next
    case False
    with Cons.prems have c: "c \<in> set cs" and "provider a \<noteq> provider c" and d: "distinct (map provider cs)"
      by auto
    with Cons.IH [OF d c] show ?thesis
      by (simp add: task_message_provider)
  qed
qed

lemma distinct_MODELS: "distinct (map provider MODELS)"
  by (simp add: MODELS_def)

lemma distinct_arrival: "distinct (map provider (arrival_order sched MODELS))"
proof -
  have "mset (map provider (arrival_order sched MODELS)) = mset (map provider MODELS)"
    by (simp add: mset_arrival_order)
  then show ?thesis
    using distinct_MODELS by (metis mset_eq_imp_distinct_iff)
qed

lemma filter_stream_provider:
  assumes "c \<in> set MODELS"
  shows "filter (\<lambda>m. item_settled m \<and> get_prop ''provider'' (data m) = Some (JStr (provider c)))
           (stream (sse_handler w sched sid)) = [task_message w c]"
proof -
  from assms have "c \<in> set (arrival_order sched MODELS)"
    by (simp add: set_arrival_order)
  from filter_tasks_provider [OF distinct_arrival this]
  show ?thesis
    by (simp add: sse_handler_stream not_item_settled_fixed not_item_settled_final)
qed

lemma fulfilled_all_rejected: "\<forall>p\<in>set ps. isl p \<Longrightarrow> fulfilled ps = []"
  by (induction ps rule: fulfilled.induct) simp_all

lemma generateObject_isl:
  "isl (generateObject schema reply) \<longleftrightarrow>
     (\<exists>e. reply = CallFails e) \<or> (\<exists>v. reply = Replies v \<and> schema (Some v) = None)"
  by (auto simp: generateObject_def split: judge_reply.splits option.splits)

lemma final_message_failed:
  assumes "isl (judge_outcome w sched)"
  shows "final_message w sched sid = judge_error_message (error_message (projl (judge_outcome w sched)))"
  using assms by (cases "judge_outcome w sched") (simp_all add: final_message_def)

lemma final_message_succeeded:
  assumes "judge_outcome w sched = Inr j"
  shows "final_message w sched sid = complete_message sid j"
  using assms by (simp add: final_message_def)

lemma fatal_judge_error: "fatal_error (judge_error_message m)"
  by (simp add: fatal_error_def judge_error_message_def get_prop_def stringify_obj_def)

lemma last_stream: "last (stream (sse_handler w sched sid)) = final_message w sched sid"
  by (simp add: sse_handler_stream)

lemma butlast_stream:
  "butlast (stream (sse_handler w sched sid))
     = start_message # map (task_message w) (arrival_order sched MODELS) @ [judging_message]"
  by (simp add: sse_handler_stream butlast_append)

lemma events_stream:
  "map event (stream (sse_handler w sched sid))
     = ''start'' # map (\<lambda>c. event (task_message w c)) (arrival_order sched MODELS)
       @ [''judging'', event (final_message w sched sid)]"
  by (simp add: sse_handler_stream start_message_def judging_message_def comp_def)

lemma no_complete_when_failed:
  assumes "isl (judge_outcome w sched)"
  shows "''complete'' \<notin> set (map event (stream (sse_handler w sched sid)))"
proof -
  have "event (final_message w sched sid) = ''error''"
    by (simp add: final_message_failed [OF assms] judge_error_message_def)
  then show ?thesis
    by (auto simp: events_stream task_message_event)
qed

lemma no_fatal_before_final:
  "\<forall>m\<in>set (butlast (stream (sse_handler w sched sid))). \<not> fatal_error m"
  by (auto simp: butlast_stream fatal_error_def start_message_def judging_message_def
      task_message_provider)

lemma Promise_all_rejects:
  assumes "p \<in> set ps" and "isl p"
  shows "\<exists>e. Promise_all sched ps = Inl e \<and> Inl e \<in> set ps"
proof -
  from assms have "p \<in> set (arrival_order sched ps)"
    by (simp add: set_arrival_order)
  with assms(2) have "rejections (arrival_order sched ps) \<noteq> []"
    by (auto simp: rejections_empty_iff)
  then obtain e es where r: "rejections (arrival_order sched ps) = e # es"
    by (cases "rejections (arrival_order sched ps)") simp_all
  then have "e \<in> set (rejections (arrival_order sched ps))"
    by simp
  then have "Inl e \<in> set ps"
    by (simp add: set_rejections set_arrival_order)
  moreover from r have "Promise_all sched ps = Inl e"
    by (simp add: Promise_all_def)
  ultimately show ?thesis by blast
qed

section \<open>Schema validation\<close>


lemma those_map_Some:
  "those (map f xs) = Some ys \<longleftrightarrow> list_all2 (\<lambda>x y. f x = Some y) xs ys"
proof (induction xs arbitrary: ys)
  case Nil
  then show ?case by auto
next
  case (Cons x xs)
  show ?case
  proof (cases "f x")
    case None
    then show ?thesis by (auto simp: list_all2_Cons1)
  next
    case (Some y)
    then show ?thesis
      by (cases "those (map f xs)") (auto simp: list_all2_Cons1 Cons.IH [symmetric])
  qed
qed

lemma z_array_Some:
  "z_array elem (Some (JArr xs)) = Some ys \<longleftrightarrow> list_all2 (\<lambda>x y. elem (Some x) = Some y) xs ys"
  by (simp add: z_array_def those_map_Some)

lemma z_array_elems:
  assumes "z_array elem v = Some ys" and "y \<in> set ys"
  shows "\<exists>x. elem (Some x) = Some y"
proof -
  from assms(1) obtain xs where v: "v = Some (JArr xs)"
    by (auto simp: z_array_def split: option.splits json.splits)
  with assms(1) have "list_all2 (\<lambda>x y. elem (Some x) = Some y) xs ys"
    by (simp add: z_array_Some)
  with assms(2) show ?thesis
    by (auto simp: list_all2_conv_all_nth in_set_conv_nth)
qed

lemma ProviderScoreSchema_provider:
  "ProviderScoreSchema v = Some e \<Longrightarrow> ProviderScore.provider e \<in> set PROVIDERS"
  by (auto simp: ProviderScoreSchema_def z_object_def z_enum_def
      split: option.splits json.splits if_splits)

lemma ProviderBinarySchema_provider:
  "ProviderBinarySchema v = Some e \<Longrightarrow> ProviderBinary.provider e \<in> set PROVIDERS"
  by (auto simp: ProviderBinarySchema_def z_object_def z_enum_def
      split: option.splits json.splits if_splits)




lemma JudgmentSchema_parts:
  assumes "JudgmentSchema v = Some j"
  shows "\<exists>obj. v = Some obj
    \<and> z_enum PROVIDERS (get_prop ''winner'' obj) = Some (winner j)
    \<and> z_string (get_prop ''reasoning'' obj) = Some (reasoning j)
    \<and> ScoresSchema (get_prop ''scores'' obj) = Some (scores j)
    \<and> ChecksSchema (get_prop ''checks'' obj) = Some (checks j)"
  using assms
  by (auto simp: JudgmentSchema_def z_object_def split: option.splits json.splits)

lemma ScoresSchema_parts:
  assumes "ScoresSchema v = Some s"
  shows "\<exists>obj. v = Some obj
    \<and> z_array ProviderScoreSchema (get_prop ''creativity'' obj) = Some (creativity s)
    \<and> z_array ProviderScoreSchema (get_prop ''engagement'' obj) = Some (engagement s)"
  using assms
  by (auto simp: ScoresSchema_def z_object_def split: option.splits json.splits)

lemma ChecksSchema_parts:
  assumes "ChecksSchema v = Some s"
  shows "\<exists>obj. v = Some obj
    \<and> z_array ProviderBinarySchema (get_prop ''toneMatch'' obj) = Some (toneMatch s)
    \<and> z_array ProviderBinarySchema (get_prop ''wordCount'' obj) = Some (wordCount s)"
  using assms
  by (auto simp: ChecksSchema_def z_object_def split: option.splits json.splits)

lemma generateObject_Inr:
  "generateObject schema reply = Inr obj \<longleftrightarrow> (\<exists>v. reply = Replies v \<and> schema (Some v) = Some obj)"
  by (auto simp: generateObject_def split: judge_reply.splits option.splits)

lemma z_array_rejects:
  assumes "x \<in> set (array_items v)" and "elem (Some x) = None"
  shows "z_array elem v = None"
proof (cases "z_array elem v")
  case None
  then show ?thesis .
next
  case (Some ys)
  from assms(1) obtain xs where v: "v = Some (JArr xs)" and x: "x \<in> set xs"
    by (auto simp: array_items_def split: option.splits json.splits)
  from Some v have "list_all2 (\<lambda>x y. elem (Some x) = Some y) xs ys"
    by (simp add: z_array_Some)
  with x obtain y where "elem (Some x) = Some y"
    by (auto simp: list_all2_conv_all_nth in_set_conv_nth)
  with assms(2) show ?thesis by simp
qed

lemma z_array_item:
  "z_array elem v \<noteq> None \<Longrightarrow> x \<in> set (array_items v) \<Longrightarrow> elem (Some x) \<noteq> None"
  using z_array_rejects [of x v elem] by (cases "elem (Some x)") simp_all

lemma ProviderScoreSchema_rejects:
  "z_enum PROVIDERS (get_prop ''provider'' x) = None \<Longrightarrow> ProviderScoreSchema (Some x) = None"
  by (cases x) (simp_all add: ProviderScoreSchema_def z_object_def)

lemma ProviderBinarySchema_rejects:
  "z_enum PROVIDERS (get_prop ''provider'' x) = None \<Longrightarrow> ProviderBinarySchema (Some x) = None"
  by (cases x) (simp_all add: ProviderBinarySchema_def z_object_def)

lemma JudgmentSchema_entries:
  assumes "JudgmentSchema (Some v) = Some j"
  shows "\<forall>x\<in>set (reply_entries v). z_enum PROVIDERS (get_prop ''provider'' x) \<noteq> None"
proof -
  from JudgmentSchema_parts [OF assms]
  have s: "ScoresSchema (get_prop ''scores'' v) = Some (scores j)"
    and c: "ChecksSchema (get_prop ''checks'' v) = Some (checks j)"
    by auto
  from ScoresSchema_parts [OF s] obtain sv where sv: "get_prop ''scores'' v = Some sv"
    and s1: "z_array ProviderScoreSchema (get_prop ''creativity'' sv) \<noteq> None"
    and s2: "z_array ProviderScoreSchema (get_prop ''engagement'' sv) \<noteq> None"
    by auto
  from ChecksSchema_parts [OF c] obtain cv where cv: "get_prop ''checks'' v = Some cv"
    and c1: "z_array ProviderBinarySchema (get_prop ''toneMatch'' cv) \<noteq> None"
    and c2: "z_array ProviderBinarySchema (get_prop ''wordCount'' cv) \<noteq> None"
    by auto
  show ?thesis
  proof
    fix x
    assume "x \<in> set (reply_entries v)"
    then consider "x \<in> set (array_items (get_prop ''creativity'' sv))"
      | "x \<in> set (array_items (get_prop ''engagement'' sv))"
      | "x \<in> set (array_items (get_prop ''toneMatch'' cv))"
      | "x \<in> set (array_items (get_prop ''wordCount'' cv))"
      by (auto simp: reply_entries_def sv cv)
    then show "z_enum PROVIDERS (get_prop ''provider'' x) \<noteq> None"
    proof cases
      case 1
      have "ProviderScoreSchema (Some x) \<noteq> None"
        using s1 1 by (rule z_array_item)
      then show ?thesis
        using ProviderScoreSchema_rejects [of x] by (cases "z_enum PROVIDERS (get_prop ''provider'' x)") simp_all
    next
      case 2
      have "ProviderScoreSchema (Some x) \<noteq> None"
        using s2 2 by (rule z_array_item)
      then show ?thesis
        using ProviderScoreSchema_rejects [of x] by (cases "z_enum PROVIDERS (get_prop ''provider'' x)") simp_all
    next
      case 3
      have "ProviderBinarySchema (Some x) \<noteq> None"
        using c1 3 by (rule z_array_item)
      then show ?thesis
        using ProviderBinarySchema_rejects [of x] by (cases "z_enum PROVIDERS (get_prop ''provider'' x)") simp_all
    next
      case 4
      have "ProviderBinarySchema (Some x) \<noteq> None"
        using c2 4 by (rule z_array_item)
      then show ?thesis
        using ProviderBinarySchema_rejects [of x] by (cases "z_enum PROVIDERS (get_prop ''provider'' x)") simp_all
    qed
  qed
qed

lemma z_array_all:
  assumes "z_array elem v = Some ys" and "\<And>x y. elem x = Some y \<Longrightarrow> P y"
  shows "\<forall>y\<in>set ys. P y"
proof
  fix y
  assume "y \<in> set ys"
  with assms(1) have "\<exists>x. elem (Some x) = Some y"
    by (rule z_array_elems)
  then obtain x where "elem (Some x) = Some y" ..
  then show "P y" by (rule assms(2))
qed

lemma ScoresSchema_known:
  assumes "ScoresSchema v = Some s"
  shows "\<forall>e\<in>set (creativity s) \<union> set (engagement s). ProviderScore.provider e \<in> set PROVIDERS"
proof -
  from ScoresSchema_parts [OF assms] obtain obj
    where a: "z_array ProviderScoreSchema (get_prop ''creativity'' obj) = Some (creativity s)"
    and b: "z_array ProviderScoreSchema (get_prop ''engagement'' obj) = Some (engagement s)"
    by auto
  have "\<forall>e\<in>set (creativity s). ProviderScore.provider e \<in> set PROVIDERS"
    using a ProviderScoreSchema_provider by (rule z_array_all)
  moreover have "\<forall>e\<in>set (engagement s). ProviderScore.provider e \<in> set PROVIDERS"
    using b ProviderScoreSchema_provider by (rule z_array_all)
  ultimately show ?thesis by (simp add: ball_Un)
qed

lemma ChecksSchema_known:
  assumes "ChecksSchema v = Some s"
  shows "\<forall>e\<in>set (toneMatch s) \<union> set (wordCount s). ProviderBinary.provider e \<in> set PROVIDERS"
proof -
  from ChecksSchema_parts [OF assms] obtain obj
    where a: "z_array ProviderBinarySchema (get_prop ''toneMatch'' obj) = Some (toneMatch s)"
    and b: "z_array ProviderBinarySchema (get_prop ''wordCount'' obj) = Some (wordCount s)"
    by auto
  have "\<forall>e\<in>set (toneMatch s). ProviderBinary.provider e \<in> set PROVIDERS"
    using a ProviderBinarySchema_provider by (rule z_array_all)
  moreover have "\<forall>e\<in>set (wordCount s). ProviderBinary.provider e \<in> set PROVIDERS"
    using b ProviderBinarySchema_provider by (rule z_array_all)
  ultimately show ?thesis by (simp add: ball_Un)
qed

lemma JudgmentSchema_known:
  assumes "JudgmentSchema v = Some j"
  shows "winner j \<in> set PROVIDERS"
    and "\<forall>e\<in>set (creativity (scores j)) \<union> set (engagement (scores j)).
           ProviderScore.provider e \<in> set PROVIDERS"
    and "\<forall>e\<in>set (toneMatch (checks j)) \<union> set (wordCount (checks j)).
           ProviderBinary.provider e \<in> set PROVIDERS"
proof -
  from JudgmentSchema_parts [OF assms] obtain obj
    where w: "z_enum PROVIDERS (get_prop ''winner'' obj) = Some (winner j)"
    and s: "ScoresSchema (get_prop ''scores'' obj) = Some (scores j)"
    and c: "ChecksSchema (get_prop ''checks'' obj) = Some (checks j)"
    by auto
  from w show "winner j \<in> set PROVIDERS"
    by (auto simp: z_enum_def split: option.splits json.splits if_splits)
  from s show "\<forall>e\<in>set (creativity (scores j)) \<union> set (engagement (scores j)).
           ProviderScore.provider e \<in> set PROVIDERS"
    by (rule ScoresSchema_known)
  from c show "\<forall>e\<in>set (toneMatch (checks j)) \<union> set (wordCount (checks j)).
           ProviderBinary.provider e \<in> set PROVIDERS"
    by (rule ChecksSchema_known)
qed

lemma JudgmentSchema_winner_prop:
  assumes "JudgmentSchema (Some v) = Some j"
  shows "get_prop ''winner'' v = Some (JStr (winner j))"
proof -
  from JudgmentSchema_parts [OF assms]
  have "z_enum PROVIDERS (get_prop ''winner'' v) = Some (winner j)"
    by auto
  then show ?thesis
    by (auto simp: z_enum_def split: option.splits json.splits if_splits)
qed





lemma JudgmentSchema_verdict:
  assumes "w \<in> set PROVIDERS" and "to_double x = Some d"
  shows "JudgmentSchema (Some (verdict w x)) = Some (verdict_judgment w d)"
  using assms
  by (simp add: JudgmentSchema_def ScoresSchema_def ChecksSchema_def ProviderScoreSchema_def
      z_object_def z_array_def z_enum_def z_number_def z_string_def get_prop_def verdict_def
      verdict_judgment_def PROVIDERS_def)

lemma generateObject_verdict:
  assumes "w \<in> set PROVIDERS" and "to_double x = Some d"
  shows "generateObject JudgmentSchema (Replies (verdict w x)) = Inr (verdict_judgment w d)"
  using JudgmentSchema_verdict [OF assms] by (simp add: generateObject_def)

lemma JudgmentSchema_verdict_stranger:
  "w \<notin> set PROVIDERS \<Longrightarrow> JudgmentSchema (Some (verdict w x)) = None"
  by (simp add: JudgmentSchema_def z_object_def z_enum_def get_prop_def verdict_def)

section \<open>The concrete runs, evaluated\<close>

lemma ids_stream:
  "map id' (stream (sse_handler w sched sid))
     = ''start'' # map (\<lambda>c. id' (task_message w c)) (arrival_order sched MODELS)
       @ [''judging'', id' (final_message w sched sid)]"
  by (simp add: sse_handler_stream start_message_def judging_message_def comp_def)

lemma arrival_MODELS_in_order: "arrival_order [] MODELS = MODELS"
  by code_simp

lemma arrival_MODELS_reversed: "arrival_order [1] MODELS = rev MODELS"
  by code_simp

lemma judge_outcome_all_succeed:
  "judge_outcome all_succeed sched = Inr (verdict_judgment ''openai'' 5)"
  by (simp add: judge_outcome_def all_succeed_def generateObject_verdict to_double_5 PROVIDERS_def)

lemma judge_outcome_all_fail:
  "judge_outcome all_fail sched = Inr (verdict_judgment ''openai'' 1)"
  by (simp add: judge_outcome_def all_fail_def generateObject_verdict to_double_1 PROVIDERS_def)

lemma judge_outcome_openai_fails:
  "judge_outcome openai_fails sched = Inr (verdict_judgment ''openai'' 1)"
  by (simp add: judge_outcome_def openai_fails_def generateObject_verdict to_double_1
      PROVIDERS_def)

lemma event_complete_message: "event (complete_message sid j) = ''complete''"
  by (simp add: complete_message_def)

lemma id_complete_message: "id' (complete_message sid j) = ''complete''"
  by (simp add: complete_message_def)

lemma winner_complete_message:
  "Option.bind (get_prop ''judgment'' (data (complete_message sid j))) (get_prop ''winner'')
     = Some (JStr (winner j))"
  by (cases "PROVIDER_DISPLAY_NAMES (winner j)")
     (simp_all add: complete_message_def stringify_obj_def Judgment_props_def get_prop_def)

lemma events_all_succeed:
  "map (\<lambda>c. event (task_message all_succeed c)) MODELS = [''story'', ''story'']"
  by code_simp

lemma events_all_fail:
  "map (\<lambda>c. event (task_message all_fail c)) MODELS = [''error'', ''error'']"
  by code_simp

lemma ids_all_fail:
  "map (\<lambda>c. id' (task_message all_fail c)) MODELS = [''error-openai'', ''error-anthropic'']"
  by code_simp

lemma events_openai_fails:
  "map (\<lambda>c. event (task_message openai_fails c)) (rev MODELS) = [''story'', ''error'']"
  by code_simp

lemma ids_openai_fails:
  "map (\<lambda>c. id' (task_message openai_fails c)) MODELS = [''error-openai'', ''story-anthropic'']"
  by code_simp

lemma settled_all_succeed:
  "map provider (fulfilled (settled all_succeed [])) = [''openai'', ''anthropic'']"
  by code_simp

lemma settled_all_fail: "fulfilled (settled all_fail []) = []"
  by code_simp

lemma settled_openai_fails: "fulfilled (settled openai_fails []) = [anthropic_result]"
  by code_simp

section \<open>Claims about the provider invoker\<close>

text \<open>
  Claim C3, as amended. The claim says that the token count of a successful
  \<^verbatim>\<open>generateStory\<close> call is the provider's usage metadata when available and the
  output length divided by 4 otherwise. The code takes \<^verbatim>\<open>usage?.totalTokens ?? 0\<close>:
  whenever the call succeeds, the token count is the reported total when there is one and
  0 when the usage or its total is missing.
\<close>

theorem generateStory_tokens:
  assumes "getModel config = Inr m" and "generateText w m tone prompt = Inr g"
  shows "\<exists>r. generateStory w config prompt tone = Inr r
           \<and> story r = text_out g
           \<and> (\<forall>n. Option.bind (usage g) totalTokens = Some n \<longrightarrow> tokens r = n)
           \<and> (Option.bind (usage g) totalTokens = None \<longrightarrow> tokens r = 0)"
  using assms by (simp add: generateStory_def)

text \<open>
  The amended claim C3 at a call whose provider reports 57 tokens and at a call without
  usage metadata.
\<close>

theorem generateStory_tokens_witness:
  "getModel (MODELS ! 1) = Inr (anthropic ''claude-haiku-4-5'')
   \<and> generateText openai_fails (anthropic ''claude-haiku-4-5'') FIXED_TONE FIXED_PROMPT
       = Inr metered_text
   \<and> Option.bind (usage metered_text) totalTokens = Some 57
   \<and> (\<exists>r. generateStory openai_fails (MODELS ! 1) FIXED_PROMPT FIXED_TONE = Inr r
          \<and> tokens r = 57)
   \<and> getModel (MODELS ! 0) = Inr (openai ''gpt-5-nano'')
   \<and> generateText all_succeed (openai ''gpt-5-nano'') FIXED_TONE FIXED_PROMPT = Inr sample_text
   \<and> Option.bind (usage sample_text) totalTokens = None
   \<and> (\<exists>r. generateStory all_succeed (MODELS ! 0) FIXED_PROMPT FIXED_TONE = Inr r
          \<and> tokens r = 0)"
proof -
  have m: "getModel (MODELS ! 1) = Inr (anthropic ''claude-haiku-4-5'')"
    by (simp add: getModel_def MODELS_def)
  have g: "generateText openai_fails (anthropic ''claude-haiku-4-5'') FIXED_TONE FIXED_PROMPT
       = Inr metered_text"
    by (simp add: openai_fails_def)
  have u: "Option.bind (usage metered_text) totalTokens = Some 57"
    by (simp add: metered_text_def)
  from generateStory_tokens [OF m g] u
  have a: "\<exists>r. generateStory openai_fails (MODELS ! 1) FIXED_PROMPT FIXED_TONE = Inr r
          \<and> tokens r = 57"
    by auto
  have m': "getModel (MODELS ! 0) = Inr (openai ''gpt-5-nano'')"
    by (simp add: getModel_def MODELS_def)
  have g': "generateText all_succeed (openai ''gpt-5-nano'') FIXED_TONE FIXED_PROMPT
       = Inr sample_text"
    by (simp add: all_succeed_def)
  have u': "Option.bind (usage sample_text) totalTokens = None"
    by (simp add: sample_text_def)
  from generateStory_tokens [OF m' g'] u'
  have b: "\<exists>r. generateStory all_succeed (MODELS ! 0) FIXED_PROMPT FIXED_TONE = Inr r
          \<and> tokens r = 0"
    by auto
  from m g u a m' g' u' b show ?thesis by (intro conjI)
qed

text \<open>
  Claim C3 as stated fails: a story of 8 characters without usage metadata gets 0 tokens,
  not 2.
\<close>

theorem generateStory_tokens_counterexample:
  "usage sample_text = None
   \<and> generateText all_succeed (openai ''gpt-5-nano'') FIXED_TONE FIXED_PROMPT = Inr sample_text
   \<and> \<not> isl (generateStory all_succeed (MODELS ! 0) FIXED_PROMPT FIXED_TONE)
   \<and> tokens (projr (generateStory all_succeed (MODELS ! 0) FIXED_PROMPT FIXED_TONE)) = 0
   \<and> length (story (projr (generateStory all_succeed (MODELS ! 0) FIXED_PROMPT FIXED_TONE)))
       div 4 = 2"
  by (simp add: generateStory_def getModel_def MODELS_def all_succeed_def sample_text_def)

section \<open>Claims about the judge\<close>




text \<open>
  Claim C4, as amended. The claim says that the judge invoker checks that every provider
  of the input results appears in the score and check mappings. The schema checks each
  entry on its own: an accepted Judgment has only entries whose provider is one of
  \<^verbatim>\<open>PROVIDERS\<close>, and a reply with an entry whose provider is anything else makes
  \<^verbatim>\<open>generateObject\<close> throw. Which providers the arrays cover is not checked.
\<close>

theorem JudgmentSchema_entries_known:
  "(generateObject JudgmentSchema reply = Inr j \<longrightarrow>
      (\<forall>e\<in>set (creativity (scores j)) \<union> set (engagement (scores j)).
         ProviderScore.provider e \<in> set PROVIDERS)
      \<and> (\<forall>e\<in>set (toneMatch (checks j)) \<union> set (wordCount (checks j)).
         ProviderBinary.provider e \<in> set PROVIDERS))
   \<and> (x \<in> set (reply_entries v) \<and> z_enum PROVIDERS (get_prop ''provider'' x) = None \<longrightarrow>
        isl (generateObject JudgmentSchema (Replies v)))"
proof (intro conjI impI)
  assume "generateObject JudgmentSchema reply = Inr j"
  then obtain u where u: "JudgmentSchema (Some u) = Some j"
    by (auto simp: generateObject_Inr)
  from u show "\<forall>e\<in>set (creativity (scores j)) \<union> set (engagement (scores j)).
         ProviderScore.provider e \<in> set PROVIDERS"
    by (rule JudgmentSchema_known)
  from u show "\<forall>e\<in>set (toneMatch (checks j)) \<union> set (wordCount (checks j)).
         ProviderBinary.provider e \<in> set PROVIDERS"
    by (rule JudgmentSchema_known)
next
  assume a: "x \<in> set (reply_entries v) \<and> z_enum PROVIDERS (get_prop ''provider'' x) = None"
  show "isl (generateObject JudgmentSchema (Replies v))"
  proof (cases "JudgmentSchema (Some v)")
    case None
    then show ?thesis by (simp add: generateObject_def)
  next
    case (Some j')
    from JudgmentSchema_entries [OF Some] a show ?thesis by blast
  qed
qed

text \<open>
  The amended claim C4 at an accepted judgment and at a reply with an entry for a provider
  that is not in \<^verbatim>\<open>PROVIDERS\<close>.
\<close>

theorem JudgmentSchema_entries_known_witness:
  "generateObject JudgmentSchema (Replies (stringify_obj (Judgment_props wild_judgment)))
     = Inr wild_judgment
   \<and> map ProviderScore.provider (creativity (scores wild_judgment)) = [''openai'']
   \<and> map ProviderScore.provider (engagement (scores wild_judgment)) = [''anthropic'']
   \<and> stray_entry \<in> set (reply_entries stray_reply)
   \<and> z_enum PROVIDERS (get_prop ''provider'' stray_entry) = None
   \<and> isl (generateObject JudgmentSchema (Replies stray_reply))"
proof -
  have a: "generateObject JudgmentSchema (Replies (stringify_obj (Judgment_props wild_judgment)))
     = Inr wild_judgment"
    by (simp add: generateObject_def JudgmentSchema_def ScoresSchema_def ChecksSchema_def
      ProviderScoreSchema_def z_object_def z_array_def z_enum_def z_number_def z_string_def
      get_prop_def wild_judgment_def stringify_obj_def Judgment_props_def ProviderScore_json_def
      PROVIDERS_def to_double_5 to_double_minus_1)
  have b: "stray_entry \<in> set (reply_entries stray_reply)"
    by (simp add: reply_entries_def stray_reply_def array_items_def get_prop_def)
  have c: "z_enum PROVIDERS (get_prop ''provider'' stray_entry) = None"
    by (simp add: stray_entry_def z_enum_def get_prop_def PROVIDERS_def)
  have d: "map ProviderScore.provider (creativity (scores wild_judgment)) = [''openai'']
      \<and> map ProviderScore.provider (engagement (scores wild_judgment)) = [''anthropic'']"
    by (simp add: wild_judgment_def)
  from JudgmentSchema_entries_known
    [of "Replies (stringify_obj (Judgment_props wild_judgment))" wild_judgment
        stray_entry stray_reply] a b c d
  show ?thesis by blast
qed

text \<open>
  Claim C4 as stated fails: both providers succeed, the judge's reply has one creativity
  entry for openai and no entry at all for anthropic, and the judgment is returned and
  sent as \<^verbatim>\<open>complete\<close>.
\<close>

theorem JudgmentSchema_coverage_counterexample:
  "map provider (results (sse_handler all_succeed [] ''s1'')) = [''openai'', ''anthropic'']
   \<and> judge_outcome all_succeed [] = Inr (the (JudgmentSchema (Some (verdict ''openai'' 5))))
   \<and> map ProviderScore.provider
        (creativity (scores (the (JudgmentSchema (Some (verdict ''openai'' 5)))))) = [''openai'']
   \<and> engagement (scores (the (JudgmentSchema (Some (verdict ''openai'' 5))))) = []
   \<and> toneMatch (checks (the (JudgmentSchema (Some (verdict ''openai'' 5))))) = []
   \<and> map event (stream (sse_handler all_succeed [] ''s1''))
       = [''start'', ''story'', ''story'', ''judging'', ''complete'']"
proof -
  have p: "JudgmentSchema (Some (verdict ''openai'' 5)) = Some (verdict_judgment ''openai'' 5)"
    by (rule JudgmentSchema_verdict) (simp_all add: PROVIDERS_def to_double_5)
  have r: "map provider (results (sse_handler all_succeed [] ''s1'')) = [''openai'', ''anthropic'']"
    by (simp only: sse_handler_results settled_all_succeed)
  have o: "judge_outcome all_succeed [] = Inr (the (JudgmentSchema (Some (verdict ''openai'' 5))))"
    by (simp add: judge_outcome_all_succeed p)
  have e: "map event (stream (sse_handler all_succeed [] ''s1''))
       = [''start'', ''story'', ''story'', ''judging'', ''complete'']"
    by (simp add: events_stream arrival_MODELS_in_order events_all_succeed
        final_message_succeeded [OF judge_outcome_all_succeed] event_complete_message)
  have c: "map ProviderScore.provider
        (creativity (scores (the (JudgmentSchema (Some (verdict ''openai'' 5)))))) = [''openai'']
      \<and> engagement (scores (the (JudgmentSchema (Some (verdict ''openai'' 5))))) = []
      \<and> toneMatch (checks (the (JudgmentSchema (Some (verdict ''openai'' 5))))) = []"
    by (simp add: p verdict_judgment_def)
  from r o c e show ?thesis by (intro conjI) (elim conjE, assumption)+
qed

text \<open>
  Claim C2, as amended. The claim says that the winner of a produced Judgment is a provider
  among the successful results. The schema declares \<^verbatim>\<open>winner: z.enum(PROVIDERS)\<close>, a
  fixed list that does not depend on the results: the winner of a produced Judgment is one
  of \<^verbatim>\<open>PROVIDERS\<close>, it is the winner the judge named, and the judgment is sent as the
  last message; a reply whose winner is not in \<^verbatim>\<open>PROVIDERS\<close> is rejected, the stream
  ends with a fatal error and has no \<^verbatim>\<open>complete\<close> message.
\<close>

theorem winner_is_a_listed_provider:
  assumes "judge_model w (fulfilled (settled w sched)) FIXED_TONE FIXED_PROMPT = Replies v"
  shows "(\<forall>j. generateObject JudgmentSchema (Replies v) = Inr j \<longrightarrow>
            winner j \<in> set PROVIDERS
            \<and> get_prop ''winner'' v = Some (JStr (winner j))
            \<and> last (stream (sse_handler w sched sid)) = complete_message sid j)
    \<and> (z_enum PROVIDERS (get_prop ''winner'' v) = None \<longrightarrow>
            isl (generateObject JudgmentSchema (Replies v))
            \<and> fatal_error (last (stream (sse_handler w sched sid)))
            \<and> ''complete'' \<notin> set (map event (stream (sse_handler w sched sid))))"
proof (intro conjI allI impI)
  fix j
  assume ok: "generateObject JudgmentSchema (Replies v) = Inr j"
  then have parsed: "JudgmentSchema (Some v) = Some j"
    by (simp add: generateObject_Inr)
  from parsed show "winner j \<in> set PROVIDERS"
    by (rule JudgmentSchema_known)
  from parsed show "get_prop ''winner'' v = Some (JStr (winner j))"
    by (rule JudgmentSchema_winner_prop)
  from ok assms have "judge_outcome w sched = Inr j"
    by (simp add: judge_outcome_def)
  then show "last (stream (sse_handler w sched sid)) = complete_message sid j"
    by (simp only: last_stream final_message_succeeded)
next
  assume unknown: "z_enum PROVIDERS (get_prop ''winner'' v) = None"
  have rejected: "JudgmentSchema (Some v) = None"
  proof (cases "JudgmentSchema (Some v)")
    case None
    then show ?thesis .
  next
    case (Some j)
    from JudgmentSchema_parts [OF Some] unknown show ?thesis by simp
  qed
  then show "isl (generateObject JudgmentSchema (Replies v))"
    by (simp add: generateObject_def)
  with assms have failed: "isl (judge_outcome w sched)"
    by (simp add: judge_outcome_def)
  show "fatal_error (last (stream (sse_handler w sched sid)))"
    by (simp only: last_stream final_message_failed [OF failed] fatal_judge_error)
  show "''complete'' \<notin> set (map event (stream (sse_handler w sched sid)))"
    using failed by (rule no_complete_when_failed)
qed

text \<open>
  The amended claim C2 at a judge that names a provider outside \<^verbatim>\<open>PROVIDERS\<close> and
  at a judge that names openai.
\<close>

theorem winner_is_a_listed_provider_witness:
  "judge_model stranger_wins (fulfilled (settled stranger_wins [])) FIXED_TONE FIXED_PROMPT
     = Replies (verdict ''gemini'' 1)
   \<and> z_enum PROVIDERS (get_prop ''winner'' (verdict ''gemini'' 1)) = None
   \<and> isl (generateObject JudgmentSchema (Replies (verdict ''gemini'' 1)))
   \<and> fatal_error (last (stream (sse_handler stranger_wins [] ''s1'')))
   \<and> judge_model openai_fails (fulfilled (settled openai_fails [])) FIXED_TONE FIXED_PROMPT
     = Replies (verdict ''openai'' 1)
   \<and> winner (projr (generateObject JudgmentSchema (Replies (verdict ''openai'' 1)))) = ''openai''
   \<and> last (stream (sse_handler openai_fails [] ''s1''))
       = complete_message ''s1'' (projr (generateObject JudgmentSchema (Replies (verdict ''openai'' 1))))"
proof -
  have a: "judge_model stranger_wins (fulfilled (settled stranger_wins [])) FIXED_TONE FIXED_PROMPT
     = Replies (verdict ''gemini'' 1)"
    by (simp add: stranger_wins_def)
  have b: "z_enum PROVIDERS (get_prop ''winner'' (verdict ''gemini'' 1)) = None"
    by (simp add: z_enum_def get_prop_def verdict_def PROVIDERS_def)
  note t = winner_is_a_listed_provider [OF a, of "''s1''"]
  from t b have c: "isl (generateObject JudgmentSchema (Replies (verdict ''gemini'' 1)))
      \<and> fatal_error (last (stream (sse_handler stranger_wins [] ''s1'')))"
    by (elim conjE impE) (assumption, intro conjI, assumption+)
  have d: "judge_model openai_fails (fulfilled (settled openai_fails [])) FIXED_TONE FIXED_PROMPT
     = Replies (verdict ''openai'' 1)"
    by (simp add: openai_fails_def)
  have e: "generateObject JudgmentSchema (Replies (verdict ''openai'' 1))
      = Inr (projr (generateObject JudgmentSchema (Replies (verdict ''openai'' 1))))"
    by (simp add: generateObject_verdict [of "''openai''" 1 1] to_double_1 PROVIDERS_def)
  have f: "winner (projr (generateObject JudgmentSchema (Replies (verdict ''openai'' 1)))) = ''openai''"
    by (simp add: generateObject_verdict [of "''openai''" 1 1] to_double_1 PROVIDERS_def
        verdict_judgment_def)
  note u = winner_is_a_listed_provider [OF d, of "''s1''", THEN conjunct1, rule_format, OF e]
  from u have g: "last (stream (sse_handler openai_fails [] ''s1''))
       = complete_message ''s1'' (projr (generateObject JudgmentSchema (Replies (verdict ''openai'' 1))))"
    by (elim conjE)
  from a b c d f g show ?thesis by (intro conjI) (elim conjE, assumption)+
qed

text \<open>
  Claim C2 as stated fails: openai's call fails, anthropic's succeeds, the judge names
  openai as winner, and the route sends \<^verbatim>\<open>complete\<close> with that winner.
\<close>

theorem winner_counterexample:
  "generateStory openai_fails (MODELS ! 0) FIXED_PROMPT FIXED_TONE = Inl (Error ''network down'')
   \<and> map provider (results (sse_handler openai_fails [] ''s1'')) = [''anthropic'']
   \<and> winner (projr (generateObject JudgmentSchema
        (judge_model openai_fails (results (sse_handler openai_fails [] ''s1''))
           FIXED_TONE FIXED_PROMPT))) = ''openai''
   \<and> map id' (stream (sse_handler openai_fails [] ''s1''))
       = [''start'', ''error-openai'', ''story-anthropic'', ''judging'', ''complete'']
   \<and> Option.bind (get_prop ''judgment'' (data (last (stream (sse_handler openai_fails [] ''s1'')))))
        (get_prop ''winner'') = Some (JStr ''openai'')"
proof -
  have a: "generateStory openai_fails (MODELS ! 0) FIXED_PROMPT FIXED_TONE
      = Inl (Error ''network down'')"
    by (simp add: generateStory_def getModel_def MODELS_def openai_fails_def)
  have b: "map provider (results (sse_handler openai_fails [] ''s1'')) = [''anthropic'']"
    by (simp add: sse_handler_results settled_openai_fails anthropic_result_def)
  have c: "winner (projr (generateObject JudgmentSchema
        (judge_model openai_fails (results (sse_handler openai_fails [] ''s1''))
           FIXED_TONE FIXED_PROMPT))) = ''openai''"
    by (simp add: openai_fails_def generateObject_verdict [of "''openai''" 1 1] to_double_1
        PROVIDERS_def verdict_judgment_def)
  have f: "final_message openai_fails [] ''s1''
      = complete_message ''s1'' (verdict_judgment ''openai'' 1)"
    using judge_outcome_openai_fails by (rule final_message_succeeded)
  have d: "map id' (stream (sse_handler openai_fails [] ''s1''))
       = [''start'', ''error-openai'', ''story-anthropic'', ''judging'', ''complete'']"
    by (simp add: ids_stream arrival_MODELS_in_order ids_openai_fails f id_complete_message)
  have e: "Option.bind (get_prop ''judgment'' (data (last (stream (sse_handler openai_fails [] ''s1'')))))
        (get_prop ''winner'') = Some (JStr ''openai'')"
    by (simp add: last_stream f winner_complete_message verdict_judgment_def)
  from a b c d e show ?thesis by (intro conjI)
qed

section \<open>Claims about the SSE route\<close>

text \<open>
  Claim C6. In every run of the route, whatever the models answer and in whatever order the
  calls settle, the providers named by the item-settled messages are exactly the configured
  providers, each once; at every moment of the run (every prefix of the stream) they are a
  subset of the configured providers; and the single message of a configured provider is its
  \<^verbatim>\<open>story\<close> message when its call succeeded and its \<^verbatim>\<open>error\<close> message when it
  failed.
\<close>

theorem one_outcome_per_provider:
  "mset (item_providers (stream (sse_handler w sched sid))) = mset (map (JStr \<circ> provider) MODELS)
   \<and> (\<forall>n. set (item_providers (take n (stream (sse_handler w sched sid))))
          \<subseteq> set (map (JStr \<circ> provider) MODELS))
   \<and> (\<forall>c\<in>set MODELS.
         filter (\<lambda>m. item_settled m \<and> get_prop ''provider'' (data m) = Some (JStr (provider c)))
           (stream (sse_handler w sched sid))
         = [case generateStory w c FIXED_PROMPT FIXED_TONE of
              Inr res \<Rightarrow> story_message res
            | Inl e \<Rightarrow> error_message_for c (error_message e)])"
proof (intro conjI allI ballI)
  have "mset (map (JStr \<circ> provider) (arrival_order sched MODELS))
      = image_mset (JStr \<circ> provider) (mset (arrival_order sched MODELS))"
    by simp
  then show m: "mset (item_providers (stream (sse_handler w sched sid)))
      = mset (map (JStr \<circ> provider) MODELS)"
    by (simp only: item_providers_stream mset_arrival_order mset_map)
  fix n
  have "set (item_providers (take n (stream (sse_handler w sched sid))))
      \<subseteq> set (item_providers (stream (sse_handler w sched sid)))"
    by (rule set_item_providers_take)
  also have "\<dots> = set (map (JStr \<circ> provider) MODELS)"
    using m by (rule mset_eq_setD)
  finally show "set (item_providers (take n (stream (sse_handler w sched sid))))
      \<subseteq> set (map (JStr \<circ> provider) MODELS)" .
next
  fix c
  assume "c \<in> set MODELS"
  then show "filter (\<lambda>m. item_settled m \<and> get_prop ''provider'' (data m) = Some (JStr (provider c)))
           (stream (sse_handler w sched sid))
         = [case generateStory w c FIXED_PROMPT FIXED_TONE of
              Inr res \<Rightarrow> story_message res
            | Inl e \<Rightarrow> error_message_for c (error_message e)]"
    by (simp only: filter_stream_provider task_message_cases)
qed

text \<open>Claim C6 at a run where openai fails and anthropic arrives first.\<close>

theorem one_outcome_per_provider_witness:
  "MODELS ! 0 \<in> set MODELS
   \<and> item_providers (stream (sse_handler openai_fails [1] ''s1''))
       = [JStr ''anthropic'', JStr ''openai'']
   \<and> filter (\<lambda>m. item_settled m
                \<and> get_prop ''provider'' (data m) = Some (JStr (provider (MODELS ! 0))))
         (stream (sse_handler openai_fails [1] ''s1''))
       = [error_message_for (MODELS ! 0) ''network down'']"
proof -
  have a: "MODELS ! 0 \<in> set MODELS"
    by (simp add: MODELS_def)
  have b: "generateStory openai_fails (MODELS ! 0) FIXED_PROMPT FIXED_TONE
      = Inl (Error ''network down'')"
    by (simp add: generateStory_def getModel_def MODELS_def openai_fails_def)
  have c: "item_providers (stream (sse_handler openai_fails [1] ''s1''))
       = [JStr ''anthropic'', JStr ''openai'']"
    by (simp only: item_providers_stream arrival_MODELS_reversed) (simp add: MODELS_def)
  from one_outcome_per_provider [of openai_fails "[1]" "''s1''"] a
  have "filter (\<lambda>m. item_settled m
                \<and> get_prop ''provider'' (data m) = Some (JStr (provider (MODELS ! 0))))
         (stream (sse_handler openai_fails [1] ''s1''))
       = [case generateStory openai_fails (MODELS ! 0) FIXED_PROMPT FIXED_TONE of
              Inr res \<Rightarrow> story_message res
            | Inl e \<Rightarrow> error_message_for (MODELS ! 0) (error_message e)]"
    by blast
  with a b c show ?thesis
    by (simp add: error_message_def)
qed

text \<open>
  Claim C7. Every stream is the \<^verbatim>\<open>start\<close> message, then the item-settled messages
  (one per configured provider, in arrival order), then the \<^verbatim>\<open>judging\<close> message, then
  one terminal message, which is \<^verbatim>\<open>complete\<close> or a fatal error; nothing follows it.
  The start, judging and terminal messages are not item-settled messages.
\<close>

theorem stream_order:
  "\<exists>items terminal.
     stream (sse_handler w sched sid) = start_message # items @ [judging_message, terminal]
     \<and> event start_message = ''start''
     \<and> event judging_message = ''judging''
     \<and> (\<forall>m\<in>set items. item_settled m)
     \<and> mset (item_providers items) = mset (map (JStr \<circ> provider) MODELS)
     \<and> (event terminal = ''complete'' \<or> fatal_error terminal)
     \<and> \<not> item_settled start_message
     \<and> \<not> item_settled judging_message
     \<and> \<not> item_settled terminal"
proof (intro exI conjI)
  show "stream (sse_handler w sched sid) =
      start_message # map (task_message w) (arrival_order sched MODELS)
      @ [judging_message, final_message w sched sid]"
    by (rule sse_handler_stream)
  show "event start_message = ''start''"
    by (simp add: start_message_def)
  show "event judging_message = ''judging''"
    by (simp add: judging_message_def)
  show "\<forall>m\<in>set (map (task_message w) (arrival_order sched MODELS)). item_settled m"
    by (simp add: item_settled_task_message)
  show "mset (item_providers (map (task_message w) (arrival_order sched MODELS)))
      = mset (map (JStr \<circ> provider) MODELS)"
    by (simp only: item_providers_tasks mset_map mset_arrival_order)
  show "event (final_message w sched sid) = ''complete'' \<or> fatal_error (final_message w sched sid)"
    by (rule final_message_kind)
  show "\<not> item_settled start_message" "\<not> item_settled judging_message"
    by (rule not_item_settled_fixed)+
  show "\<not> item_settled (final_message w sched sid)"
    by (rule not_item_settled_final)
qed

text \<open>Claim C7 at a run where anthropic's story arrives before openai's error.\<close>

theorem stream_order_witness:
  "\<exists>items terminal.
     stream (sse_handler openai_fails [1] ''s1'') = start_message # items @ [judging_message, terminal]
     \<and> map event items = [''story'', ''error'']
     \<and> event terminal = ''complete''"
proof -
  from stream_order [of openai_fails "[1]" "''s1''"] obtain items terminal
    where s: "stream (sse_handler openai_fails [1] ''s1'')
        = start_message # items @ [judging_message, terminal]"
    by blast
  have "final_message openai_fails [1] ''s1''
      = complete_message ''s1'' (verdict_judgment ''openai'' 1)"
    using judge_outcome_openai_fails by (rule final_message_succeeded)
  then have "map event (stream (sse_handler openai_fails [1] ''s1''))
      = [''start'', ''story'', ''error'', ''judging'', ''complete'']"
    by (simp only: events_stream arrival_MODELS_reversed events_openai_fails
        event_complete_message append_Cons append_Nil)
  with s have "map event items @ [event judging_message, event terminal]
      = [''story'', ''error''] @ [''judging'', ''complete'']"
    by simp
  then have t: "map event items = [''story'', ''error''] \<and> event terminal = ''complete''"
    by (subst (asm) append_eq_append_conv) simp_all
  show ?thesis
  proof (intro exI conjI)
    show "stream (sse_handler openai_fails [1] ''s1'')
        = start_message # items @ [judging_message, terminal]"
      by (rule s)
    show "map event items = [''story'', ''error'']" using t ..
    show "event terminal = ''complete''" using t ..
  qed
qed

text \<open>
  Claim C8. A failing generation call never aborts the others: in every run, each configured
  provider's own outcome message is among the messages written before the \<^verbatim>\<open>judging\<close>
  message, the judging message comes only after all of them, and the judge is called once,
  with the results of all the calls that succeeded.
\<close>

theorem failures_do_not_abort:
  "judge_inputs (sse_handler w sched sid) = [results (sse_handler w sched sid)]
   \<and> mset (results (sse_handler w sched sid))
       = mset (fulfilled (map (\<lambda>c. generateStory w c FIXED_PROMPT FIXED_TONE) MODELS))
   \<and> length (stream (sse_handler w sched sid)) = length MODELS + 3
   \<and> stream (sse_handler w sched sid) ! (length MODELS + 1) = judging_message
   \<and> (\<forall>c\<in>set MODELS.
         (case generateStory w c FIXED_PROMPT FIXED_TONE of
            Inr res \<Rightarrow> story_message res
          | Inl e \<Rightarrow> error_message_for c (error_message e))
         \<in> set (take (length MODELS) (tl (stream (sse_handler w sched sid)))))"
proof (intro conjI ballI)
  show "judge_inputs (sse_handler w sched sid) = [results (sse_handler w sched sid)]"
    by (simp only: sse_handler_judge_inputs sse_handler_results)
  show "mset (results (sse_handler w sched sid))
       = mset (fulfilled (map (\<lambda>c. generateStory w c FIXED_PROMPT FIXED_TONE) MODELS))"
    unfolding sse_handler_results using mset_settled by (rule mset_fulfilled_cong)
  show "length (stream (sse_handler w sched sid)) = length MODELS + 3"
    by (simp add: sse_handler_stream length_arrival_order)
  have "(start_message # map (task_message w) (arrival_order sched MODELS)
         @ [judging_message, final_message w sched sid])
        ! (length (start_message # map (task_message w) (arrival_order sched MODELS)) + 0)
      = judging_message"
    by (simp only: append_Cons [symmetric] nth_append_length_plus) simp
  then show "stream (sse_handler w sched sid) ! (length MODELS + 1) = judging_message"
    by (simp add: sse_handler_stream length_arrival_order)
next
  fix c
  assume "c \<in> set MODELS"
  then have "task_message w c \<in> set (map (task_message w) (arrival_order sched MODELS))"
    by (simp add: set_arrival_order)
  moreover have "take (length MODELS) (tl (stream (sse_handler w sched sid)))
      = map (task_message w) (arrival_order sched MODELS)"
    by (simp add: sse_handler_stream length_arrival_order)
  ultimately show "(case generateStory w c FIXED_PROMPT FIXED_TONE of
            Inr res \<Rightarrow> story_message res
          | Inl e \<Rightarrow> error_message_for c (error_message e))
         \<in> set (take (length MODELS) (tl (stream (sse_handler w sched sid))))"
    by (simp only: task_message_cases)
qed

text \<open>Claim C8 at a run where openai fails: anthropic's story is sent and judged.\<close>

theorem failures_do_not_abort_witness:
  "MODELS ! 1 \<in> set MODELS
   \<and> generateStory openai_fails (MODELS ! 0) FIXED_PROMPT FIXED_TONE = Inl (Error ''network down'')
   \<and> generateStory openai_fails (MODELS ! 1) FIXED_PROMPT FIXED_TONE = Inr anthropic_result
   \<and> story_message anthropic_result
       \<in> set (take (length MODELS) (tl (stream (sse_handler openai_fails [] ''s1''))))
   \<and> judge_inputs (sse_handler openai_fails [] ''s1'') = [[anthropic_result]]"
proof -
  have a: "MODELS ! 1 \<in> set MODELS"
    by (simp add: MODELS_def)
  have b: "generateStory openai_fails (MODELS ! 0) FIXED_PROMPT FIXED_TONE
      = Inl (Error ''network down'')"
    by (simp add: generateStory_def getModel_def MODELS_def openai_fails_def)
  have c: "generateStory openai_fails (MODELS ! 1) FIXED_PROMPT FIXED_TONE = Inr anthropic_result"
    by (simp add: generateStory_def getModel_def MODELS_def openai_fails_def metered_text_def
        anthropic_result_def)
  have d: "judge_inputs (sse_handler openai_fails [] ''s1'') = [[anthropic_result]]"
    by (simp only: sse_handler_judge_inputs settled_openai_fails)
  from failures_do_not_abort [of openai_fails "[]" "''s1''"] a
  have "(case generateStory openai_fails (MODELS ! 1) FIXED_PROMPT FIXED_TONE of
            Inr res \<Rightarrow> story_message res
          | Inl e \<Rightarrow> error_message_for (MODELS ! 1) (error_message e))
         \<in> set (take (length MODELS) (tl (stream (sse_handler openai_fails [] ''s1''))))"
    by blast
  with a b c d show ?thesis by simp
qed

text \<open>
  Claim C1, as amended. The claim says that with zero results the route sends a fatal error,
  does not call the judge and sends neither \<^verbatim>\<open>judging\<close> nor \<^verbatim>\<open>complete\<close>.
  The route has no such case: when every generation call fails it sends error messages,
  exactly one for each configured provider, then \<^verbatim>\<open>judging\<close>, calls the judge once
  with the empty list of results, and ends with \<^verbatim>\<open>complete\<close> when the judge's reply
  passes the schema and with the judge's fatal error otherwise.
\<close>

theorem total_failure_still_judged:
  assumes "\<forall>c\<in>set MODELS. isl (generateStory w c FIXED_PROMPT FIXED_TONE)"
  shows "results (sse_handler w sched sid) = []
    \<and> judge_inputs (sse_handler w sched sid) = [[]]
    \<and> (\<exists>items. stream (sse_handler w sched sid)
          = start_message # items
            @ [judging_message,
               case generateObject JudgmentSchema (judge_model w [] FIXED_TONE FIXED_PROMPT) of
                 Inr judgment \<Rightarrow> complete_message sid judgment
               | Inl error \<Rightarrow> judge_error_message (error_message error)]
        \<and> length items = length MODELS
        \<and> (\<forall>m\<in>set items. item_settled m \<and> event m = ''error'')
        \<and> mset (item_providers items) = mset (map (JStr \<circ> provider) MODELS))"
proof -
  from assms have "\<forall>p\<in>set (settled w sched). isl p"
    by (simp add: settled_def set_arrival_order)
  then have none: "fulfilled (settled w sched) = []"
    by (rule fulfilled_all_rejected)
  have final: "final_message w sched sid
      = (case generateObject JudgmentSchema (judge_model w [] FIXED_TONE FIXED_PROMPT) of
           Inr judgment \<Rightarrow> complete_message sid judgment
         | Inl error \<Rightarrow> judge_error_message (error_message error))"
    by (simp add: final_message_def judge_outcome_def none)
  have items: "\<forall>m\<in>set (map (task_message w) (arrival_order sched MODELS)).
      item_settled m \<and> event m = ''error''"
    using assms by (simp add: item_settled_task_message task_message_event set_arrival_order)
  have each: "mset (item_providers (map (task_message w) (arrival_order sched MODELS)))
      = mset (map (JStr \<circ> provider) MODELS)"
    by (simp only: item_providers_tasks mset_map mset_arrival_order)
  have "stream (sse_handler w sched sid)
      = start_message # map (task_message w) (arrival_order sched MODELS)
        @ [judging_message,
           case generateObject JudgmentSchema (judge_model w [] FIXED_TONE FIXED_PROMPT) of
             Inr judgment \<Rightarrow> complete_message sid judgment
           | Inl error \<Rightarrow> judge_error_message (error_message error)]
      \<and> length (map (task_message w) (arrival_order sched MODELS)) = length MODELS
      \<and> (\<forall>m\<in>set (map (task_message w) (arrival_order sched MODELS)).
            item_settled m \<and> event m = ''error'')
      \<and> mset (item_providers (map (task_message w) (arrival_order sched MODELS)))
          = mset (map (JStr \<circ> provider) MODELS)"
  proof (intro conjI)
    show "stream (sse_handler w sched sid)
      = start_message # map (task_message w) (arrival_order sched MODELS)
        @ [judging_message,
           case generateObject JudgmentSchema (judge_model w [] FIXED_TONE FIXED_PROMPT) of
             Inr judgment \<Rightarrow> complete_message sid judgment
           | Inl error \<Rightarrow> judge_error_message (error_message error)]"
      by (simp only: sse_handler_stream final)
    show "length (map (task_message w) (arrival_order sched MODELS)) = length MODELS"
      by (simp only: length_map length_arrival_order)
    show "\<forall>m\<in>set (map (task_message w) (arrival_order sched MODELS)).
            item_settled m \<and> event m = ''error''"
      by (rule items)
    show "mset (item_providers (map (task_message w) (arrival_order sched MODELS)))
          = mset (map (JStr \<circ> provider) MODELS)"
      by (rule each)
  qed
  then have "\<exists>items. stream (sse_handler w sched sid)
          = start_message # items
            @ [judging_message,
               case generateObject JudgmentSchema (judge_model w [] FIXED_TONE FIXED_PROMPT) of
                 Inr judgment \<Rightarrow> complete_message sid judgment
               | Inl error \<Rightarrow> judge_error_message (error_message error)]
        \<and> length items = length MODELS
        \<and> (\<forall>m\<in>set items. item_settled m \<and> event m = ''error'')
        \<and> mset (item_providers items) = mset (map (JStr \<circ> provider) MODELS)"
    by (rule exI [of _ "map (task_message w) (arrival_order sched MODELS)"])
  moreover have "results (sse_handler w sched sid) = []"
    by (simp only: sse_handler_results none)
  moreover have "judge_inputs (sse_handler w sched sid) = [[]]"
    by (simp only: sse_handler_judge_inputs none)
  ultimately show ?thesis by (intro conjI)
qed

text \<open>The amended claim C1 at a run where both generation calls fail.\<close>

theorem total_failure_still_judged_witness:
  "isl (generateStory all_fail (MODELS ! 0) FIXED_PROMPT FIXED_TONE)
   \<and> isl (generateStory all_fail (MODELS ! 1) FIXED_PROMPT FIXED_TONE)
   \<and> judge_inputs (sse_handler all_fail [0] ''s1'') = [[]]
   \<and> results (sse_handler all_fail [0] ''s1'') = []"
proof -
  have a: "isl (generateStory all_fail (MODELS ! 0) FIXED_PROMPT FIXED_TONE)
      \<and> isl (generateStory all_fail (MODELS ! 1) FIXED_PROMPT FIXED_TONE)"
    by (simp add: generateStory_def getModel_def MODELS_def all_fail_def)
  then have "\<forall>c\<in>set MODELS. isl (generateStory all_fail c FIXED_PROMPT FIXED_TONE)"
    by (simp add: MODELS_def)
  note t = total_failure_still_judged [OF this, of "[0]" "''s1''"]
  from t have r: "results (sse_handler all_fail [0] ''s1'') = []"
    by (rule conjunct1)
  from t have j: "judge_inputs (sse_handler all_fail [0] ''s1'') = [[]]"
    by (rule conjunct2 [THEN conjunct1])
  from a r j show ?thesis by (intro conjI) (elim conjE, assumption)+
qed

text \<open>
  Claim C1 as stated fails: both generation calls fail, the judge is called with no results
  and answers, and the stream has \<^verbatim>\<open>judging\<close> and \<^verbatim>\<open>complete\<close>.
\<close>

theorem total_failure_counterexample:
  "isl (generateStory all_fail (MODELS ! 0) FIXED_PROMPT FIXED_TONE)
   \<and> isl (generateStory all_fail (MODELS ! 1) FIXED_PROMPT FIXED_TONE)
   \<and> length MODELS = 2
   \<and> results (sse_handler all_fail [] ''s1'') = []
   \<and> judge_inputs (sse_handler all_fail [] ''s1'') = [[]]
   \<and> map event (stream (sse_handler all_fail [] ''s1''))
       = [''start'', ''error'', ''error'', ''judging'', ''complete'']
   \<and> map id' (stream (sse_handler all_fail [] ''s1''))
       = [''start'', ''error-openai'', ''error-anthropic'', ''judging'', ''complete'']"
proof -
  have a: "isl (generateStory all_fail (MODELS ! 0) FIXED_PROMPT FIXED_TONE)
      \<and> isl (generateStory all_fail (MODELS ! 1) FIXED_PROMPT FIXED_TONE)
      \<and> length MODELS = 2"
    by (simp add: generateStory_def getModel_def MODELS_def all_fail_def)
  have r: "results (sse_handler all_fail [] ''s1'') = []"
    by (simp only: sse_handler_results settled_all_fail)
  have j: "judge_inputs (sse_handler all_fail [] ''s1'') = [[]]"
    by (simp only: sse_handler_judge_inputs settled_all_fail)
  have f: "final_message all_fail [] ''s1''
      = complete_message ''s1'' (verdict_judgment ''openai'' 1)"
    using judge_outcome_all_fail by (rule final_message_succeeded)
  have e: "map event (stream (sse_handler all_fail [] ''s1''))
       = [''start'', ''error'', ''error'', ''judging'', ''complete'']"
    by (simp add: events_stream arrival_MODELS_in_order events_all_fail f
        event_complete_message)
  have i: "map id' (stream (sse_handler all_fail [] ''s1''))
       = [''start'', ''error-openai'', ''error-anthropic'', ''judging'', ''complete'']"
    by (simp add: ids_stream arrival_MODELS_in_order ids_all_fail f id_complete_message)
  from a r j e i show ?thesis by (intro conjI) (elim conjE, assumption)+
qed

text \<open>
  Claim C9. When the judge call fails, by a failed call or by a reply that does not pass the
  schema, the last message of the stream is the judge's error message; it has no
  \<^verbatim>\<open>provider\<close> field, while every per-provider error message has one; no message
  before it is a fatal error; and the stream has no \<^verbatim>\<open>complete\<close> message.
\<close>

theorem judge_failure_is_fatal:
  assumes "judge_model w (fulfilled (settled w sched)) FIXED_TONE FIXED_PROMPT = reply"
    and "(\<exists>e. reply = CallFails e) \<or> (\<exists>v. reply = Replies v \<and> JudgmentSchema (Some v) = None)"
  shows "(\<exists>message. last (stream (sse_handler w sched sid)) = judge_error_message message)
    \<and> fatal_error (last (stream (sse_handler w sched sid)))
    \<and> get_prop ''provider'' (data (last (stream (sse_handler w sched sid)))) = None
    \<and> ''complete'' \<notin> set (map event (stream (sse_handler w sched sid)))
    \<and> (\<forall>m\<in>set (butlast (stream (sse_handler w sched sid))). \<not> fatal_error m)
    \<and> (\<forall>c message. get_prop ''provider'' (data (error_message_for c message))
          = Some (JStr (provider c)))"
proof -
  from assms have failed: "isl (judge_outcome w sched)"
    by (simp add: judge_outcome_def generateObject_isl)
  have l: "last (stream (sse_handler w sched sid))
      = judge_error_message (error_message (projl (judge_outcome w sched)))"
    by (simp only: last_stream final_message_failed [OF failed])
  have f: "fatal_error (last (stream (sse_handler w sched sid)))"
    by (simp only: l fatal_judge_error)
  have p: "\<forall>c message. get_prop ''provider'' (data (error_message_for c message))
          = Some (JStr (provider c))"
  proof (intro allI)
    fix c message
    show "get_prop ''provider'' (data (error_message_for c message)) = Some (JStr (provider c))"
      by (cases "PROVIDER_DISPLAY_NAMES (provider c)")
         (simp_all add: error_message_for_def get_prop_def stringify_obj_def)
  qed
  from l have "\<exists>message. last (stream (sse_handler w sched sid)) = judge_error_message message"
    by (rule exI)
  moreover from f have "get_prop ''provider'' (data (last (stream (sse_handler w sched sid)))) = None"
    by (simp add: fatal_error_def)
  moreover note f no_complete_when_failed [OF failed] no_fatal_before_final p
  ultimately show ?thesis by (intro conjI)
qed

text \<open>
  Claim C9 at a run where the judge call times out and at a run where the judge's reply
  does not pass the schema.
\<close>

theorem judge_failure_is_fatal_witness:
  "judge_model judge_down (fulfilled (settled judge_down [1])) FIXED_TONE FIXED_PROMPT
     = CallFails (Error ''timeout'')
   \<and> last (stream (sse_handler judge_down [1] ''s1'')) = judge_error_message ''timeout''
   \<and> map id' (stream (sse_handler judge_down [1] ''s1''))
       = [''start'', ''story-anthropic'', ''story-openai'', ''judging'', ''judge-error'']
   \<and> ''complete'' \<notin> set (map event (stream (sse_handler judge_down [1] ''s1'')))
   \<and> judge_model stranger_wins (fulfilled (settled stranger_wins [])) FIXED_TONE FIXED_PROMPT
     = Replies (verdict ''gemini'' 1)
   \<and> JudgmentSchema (Some (verdict ''gemini'' 1)) = None
   \<and> fatal_error (last (stream (sse_handler stranger_wins [] ''s1'')))
   \<and> ''complete'' \<notin> set (map event (stream (sse_handler stranger_wins [] ''s1'')))"
proof -
  have a: "judge_model judge_down (fulfilled (settled judge_down [1])) FIXED_TONE FIXED_PROMPT
     = CallFails (Error ''timeout'')"
    by (simp add: judge_down_def)
  have b: "(\<exists>e. CallFails (Error ''timeout'') = CallFails e)
      \<or> (\<exists>v. CallFails (Error ''timeout'') = Replies v \<and> JudgmentSchema (Some v) = None)"
    by simp
  have c: "last (stream (sse_handler judge_down [1] ''s1'')) = judge_error_message ''timeout''"
    by code_simp
  have d: "map id' (stream (sse_handler judge_down [1] ''s1''))
       = [''start'', ''story-anthropic'', ''story-openai'', ''judging'', ''judge-error'']"
    by code_simp
  from judge_failure_is_fatal [OF a b, of "''s1''"]
  have e: "''complete'' \<notin> set (map event (stream (sse_handler judge_down [1] ''s1'')))"
    by blast
  have a': "judge_model stranger_wins (fulfilled (settled stranger_wins [])) FIXED_TONE FIXED_PROMPT
     = Replies (verdict ''gemini'' 1)"
    by (simp add: stranger_wins_def)
  have r: "JudgmentSchema (Some (verdict ''gemini'' 1)) = None"
    by (simp add: JudgmentSchema_def z_object_def z_enum_def get_prop_def verdict_def
        PROVIDERS_def)
  then have b': "(\<exists>e. Replies (verdict ''gemini'' 1) = CallFails e)
      \<or> (\<exists>v. Replies (verdict ''gemini'' 1) = Replies v \<and> JudgmentSchema (Some v) = None)"
    by simp
  note t = judge_failure_is_fatal [OF a' b', of "''s1''"]
  from t have f: "fatal_error (last (stream (sse_handler stranger_wins [] ''s1'')))"
    by (rule conjunct2 [THEN conjunct1])
  from t have g: "''complete'' \<notin> set (map event (stream (sse_handler stranger_wins [] ''s1'')))"
    by (rule conjunct2 [THEN conjunct2, THEN conjunct2, THEN conjunct1])
  from a c d e a' r f g show ?thesis by (intro conjI)
qed

section \<open>Claims about the agent handler\<close>

text \<open>
  Claim C10. The agent handler awaits the bare generation promises with
  \<^verbatim>\<open>Promise.all\<close>: when the call of at least one configured provider fails, the
  handler makes no judge call and returns no output; it throws what one of the failed calls
  threw.
\<close>

theorem handler_fails_as_a_whole:
  assumes "c \<in> set MODELS" and "isl (generateStory w c prompt tone)"
  shows "fst (handler w sched sid prompt tone) = []
    \<and> (\<exists>e. snd (handler w sched sid prompt tone) = Inl e
          \<and> Inl e \<in> set (map (\<lambda>config. generateStory w config prompt tone) MODELS))"
proof -
  from assms(1) have "generateStory w c prompt tone
      \<in> set (map (\<lambda>config. generateStory w config prompt tone) MODELS)"
    by simp
  from Promise_all_rejects [OF this assms(2)] obtain e
    where e: "Promise_all sched (map (\<lambda>config. generateStory w config prompt tone) MODELS) = Inl e"
      and m: "Inl e \<in> set (map (\<lambda>config. generateStory w config prompt tone) MODELS)"
    by blast
  from e have "handler w sched sid prompt tone = ([], Inl e)"
    by (simp add: handler_def)
  with m show ?thesis by simp
qed

text \<open>
  Claim C10 at a run where openai fails and anthropic succeeds: nothing is returned for
  anthropic either.
\<close>

theorem handler_fails_as_a_whole_witness:
  "MODELS ! 0 \<in> set MODELS
   \<and> isl (generateStory openai_fails (MODELS ! 0) ''a lighthouse'' comedic)
   \<and> generateStory openai_fails (MODELS ! 1) ''a lighthouse'' comedic = Inr anthropic_result
   \<and> fst (handler openai_fails [1] ''s1'' ''a lighthouse'' comedic) = []
   \<and> isl (snd (handler openai_fails [1] ''s1'' ''a lighthouse'' comedic))"
proof -
  have a: "MODELS ! 0 \<in> set MODELS"
    by (simp add: MODELS_def)
  have b: "isl (generateStory openai_fails (MODELS ! 0) ''a lighthouse'' comedic)"
    by (simp add: generateStory_def getModel_def MODELS_def openai_fails_def)
  have c: "generateStory openai_fails (MODELS ! 1) ''a lighthouse'' comedic = Inr anthropic_result"
    by (simp add: generateStory_def getModel_def MODELS_def openai_fails_def metered_text_def
        anthropic_result_def)
  from handler_fails_as_a_whole [OF a b, of "[1]" "''s1''"]
  have "fst (handler openai_fails [1] ''s1'' ''a lighthouse'' comedic) = []
      \<and> isl (snd (handler openai_fails [1] ''s1'' ''a lighthouse'' comedic))"
    by auto
  with a b c show ?thesis by (intro conjI) (elim conjE, assumption)+
qed

end
